theory Spec2Isabelle
  imports Complex_Main
begin

section \<open>JavaScript values\<close>

text \<open>
  The handlers work on untyped values (\<^verbatim>\<open>any\<close>): parsed JSON bodies, cookies,
  upstream responses.  A value is a JSON tree, or \<^verbatim>\<open>undefined\<close>.  Strings are byte
  strings (the UTF-8 encoding of the JavaScript string), so \<^verbatim>\<open>Buffer.from(s)\<close> is the
  string itself.  Numbers are rationals; JSON has no NaN and no infinities.
\<close>

datatype jsval =
    JUndefined
  | JNull
  | JBool bool
  | JNum rat
  | JStr string
  | JArr "jsval list"
  | JObj "(string \<times> jsval) list"

text \<open>A thrown value: the constructor's name and its \<^verbatim>\<open>message\<close>.\<close>

datatype js_error =
    Error string
  | TypeError string
  | SyntaxError string
  | RangeError string

fun message :: "js_error \<Rightarrow> string" where
  "message (Error m) = m"
| "message (TypeError m) = m"
| "message (SyntaxError m) = m"
| "message (RangeError m) = m"

text \<open>\<^verbatim>\<open>!!v\<close>: everything is truthy except undefined, null, false, 0 and "".\<close>

fun truthy :: "jsval \<Rightarrow> bool" where
  "truthy JUndefined = False"
| "truthy JNull = False"
| "truthy (JBool b) = b"
| "truthy (JNum x) = (x \<noteq> 0)"
| "truthy (JStr s) = (s \<noteq> [])"
| "truthy (JArr xs) = True"
| "truthy (JObj kvs) = True"

text \<open>\<^verbatim>\<open>a || b\<close> and \<^verbatim>\<open>a && b\<close> on values (both operands already evaluated).\<close>

definition js_or :: "jsval \<Rightarrow> jsval \<Rightarrow> jsval" where
  "js_or a b = (if truthy a then a else b)"

definition js_and :: "jsval \<Rightarrow> jsval \<Rightarrow> jsval" where
  "js_and a b = (if truthy a then b else a)"

text \<open>\<^verbatim>\<open>a ?? b\<close>: the right operand only for null and undefined.\<close>

definition nullish :: "jsval \<Rightarrow> bool" where
  "nullish v = (v = JUndefined \<or> v = JNull)"

definition js_coalesce :: "jsval \<Rightarrow> jsval \<Rightarrow> jsval" where
  "js_coalesce a b = (if nullish a then b else a)"

text \<open>
  Strings are kept as UTF-8 bytes, and JavaScript counts a string in UTF-16 code units: a
  character of one, two or three bytes is one unit, a character of four bytes is two,
  and a continuation byte adds nothing.  Iterating a string gives its characters.
\<close>

definition utf16_units :: "char \<Rightarrow> nat" where
  "utf16_units c =
     (let n = (of_char c :: nat)
      in if n < 128 then 1 else if n < 192 then 0 else if n < 240 then 1 else 2)"

definition utf16_length :: "string \<Rightarrow> nat" where
  "utf16_length s = sum_list (map utf16_units s)"

definition continuation :: "char \<Rightarrow> bool" where
  "continuation c = (128 \<le> (of_char c :: nat) \<and> (of_char c :: nat) < 192)"

function code_points :: "string \<Rightarrow> string list" where
  "code_points [] = []"
| "code_points (c # cs) = (c # takeWhile continuation cs) # code_points (dropWhile continuation cs)"
  by pat_completeness auto
termination
  by (relation "measure length") (auto simp: length_dropWhile_le le_imp_less_Suc)

text \<open>
  Property read \<^verbatim>\<open>v.k\<close>.  Reading a property of null or undefined throws a TypeError
  (the message is V8's); an object gives the value stored under the key or undefined;
  arrays and strings have \<^verbatim>\<open>length\<close>; every other name read in this program is
  undefined on arrays and primitives.
\<close>

definition cannot_read :: "jsval \<Rightarrow> string \<Rightarrow> js_error" where
  "cannot_read v k =
     TypeError (''Cannot read properties of '' @ (if v = JNull then ''null'' else ''undefined'')
                @ '' (reading '' @ [CHR 0x27] @ k @ [CHR 0x27] @ '')'')"

fun get_prop :: "jsval \<Rightarrow> string \<Rightarrow> js_error + jsval" where
  "get_prop JUndefined k = Inl (cannot_read JUndefined k)"
| "get_prop JNull k = Inl (cannot_read JNull k)"
| "get_prop (JObj kvs) k = Inr (case map_of kvs k of Some v \<Rightarrow> v | None \<Rightarrow> JUndefined)"
| "get_prop (JArr xs) k = Inr (if k = ''length'' then JNum (of_nat (length xs)) else JUndefined)"
| "get_prop (JStr s) k = Inr (if k = ''length'' then JNum (of_nat (utf16_length s)) else JUndefined)"
| "get_prop (JBool b) k = Inr JUndefined"
| "get_prop (JNum x) k = Inr JUndefined"

text \<open>Optional chaining \<^verbatim>\<open>v?.k\<close>: undefined instead of the TypeError.\<close>

definition get_opt :: "jsval \<Rightarrow> string \<Rightarrow> jsval" where
  "get_opt v k = (case get_prop v k of Inl e \<Rightarrow> JUndefined | Inr x \<Rightarrow> x)"

text \<open>\<^verbatim>\<open>xs.map(f)\<close> where the callback may throw: the first exception ends the loop.\<close>

fun map_throw :: "('a \<Rightarrow> js_error + 'b) \<Rightarrow> 'a list \<Rightarrow> js_error + 'b list" where
  "map_throw f [] = Inr []"
| "map_throw f (x # xs) =
     (case f x of
        Inl e \<Rightarrow> Inl e
      | Inr y \<Rightarrow> (case map_throw f xs of Inl e \<Rightarrow> Inl e | Inr ys \<Rightarrow> Inr (y # ys)))"

section \<open>Requests and responses of the Express application\<close>

text \<open>
  What a handler reads of the incoming request: the query string (values cast to
  \<^verbatim>\<open>string\<close> by the handlers), the cookies parsed by cookie-parser, the JSON body.
\<close>

record express_request =
  query :: "string \<rightharpoonup> string"
  cookies :: "string \<rightharpoonup> jsval"
  req_body :: jsval

datatype response_body =
    SendText string
  | SendJson jsval
  | Redirect string

record express_response =
  res_status :: nat
  res_body :: response_body

text \<open>\<^verbatim>\<open>req.cookies[name]\<close>: undefined when the cookie is missing.\<close>

definition cookie :: "express_request \<Rightarrow> string \<Rightarrow> jsval" where
  "cookie req name = (case cookies req name of Some v \<Rightarrow> v | None \<Rightarrow> JUndefined)"

text \<open>
  A handler's effects besides the response: the requests sent upstream, in order, and
  the cookies set with \<^verbatim>\<open>res.cookie\<close>.
\<close>

datatype fetch_body =
    NoBody
  | FormBody "(string \<times> string) list"
  | JsonBody jsval

record fetch_request =
  url :: string
  http_method :: string
  authorization :: "string option"
  content :: fetch_body

record upstream_response =
  up_status :: nat
  up_text :: string

definition ok :: "upstream_response \<Rightarrow> bool" where
  "ok r = (200 \<le> up_status r \<and> up_status r \<le> 299)"

record effects =
  sent :: "fetch_request list"
  set_cookies :: "(string \<times> jsval \<times> nat) list"

definition no_effects :: effects where
  "no_effects = \<lparr>sent = [], set_cookies = []\<rparr>"

section \<open>The runtime library\<close>

text \<open>
  The functions of Node and of the language that the program calls and that are not part
  of the repository.  They are parameters of the model:
  \<^item> \<^verbatim>\<open>crypto.createHmac("sha256", key).update(data).digest()\<close>, the raw digest;
  \<^item> \<^verbatim>\<open>JSON.parse\<close> of a byte string decoded as UTF-8 (it throws a SyntaxError), and
    \<^verbatim>\<open>JSON.stringify\<close>;
  \<^item> the conversions between numbers and strings;
  \<^item> \<^verbatim>\<open>s[i]\<close>, the string of the code unit \<open>i\<close> of a string (half a character of four
    bytes is not a string of UTF-8 bytes, so the value is left to the library);
  \<^item> \<^verbatim>\<open>URLSearchParams.toString\<close>.
\<close>

record node_lib =
  hmac_sha256 :: "string \<Rightarrow> string \<Rightarrow> string"
  JSON_parse :: "string \<Rightarrow> js_error + jsval"
  JSON_stringify :: "jsval \<Rightarrow> string"
  Number_toString :: "rat \<Rightarrow> string"
  String_toNumber :: "string \<Rightarrow> rat option"
  String_at :: "string \<Rightarrow> nat \<Rightarrow> jsval"
  URLSearchParams_toString :: "(string \<times> string) list \<Rightarrow> string"

text \<open>\<^verbatim>\<open>xs.join(sep)\<close> on strings.\<close>

fun join :: "string \<Rightarrow> string list \<Rightarrow> string" where
  "join sep [] = []"
| "join sep [x] = x"
| "join sep (x # y # ys) = x @ sep @ join sep (y # ys)"

text \<open>
  The string a value becomes in a template literal; \<^verbatim>\<open>Array.prototype.join\<close> renders
  null and undefined elements as the empty string.
\<close>

fun ToString :: "node_lib \<Rightarrow> jsval \<Rightarrow> string" where
  "ToString L JUndefined = ''undefined''"
| "ToString L JNull = ''null''"
| "ToString L (JBool b) = (if b then ''true'' else ''false'')"
| "ToString L (JNum x) = Number_toString L x"
| "ToString L (JStr s) = s"
| "ToString L (JArr xs) =
     join '','' (map (\<lambda>v. if v = JUndefined \<or> v = JNull then [] else ToString L v) xs)"
| "ToString L (JObj kvs) = ''[object Object]''"

definition join_values :: "node_lib \<Rightarrow> string \<Rightarrow> jsval list \<Rightarrow> string" where
  "join_values L sep xs =
     join sep (map (\<lambda>v. if v = JUndefined \<or> v = JNull then [] else ToString L v) xs)"

text \<open>The number a value becomes in a comparison; \<open>None\<close> is NaN.\<close>

fun ToNumber :: "node_lib \<Rightarrow> jsval \<Rightarrow> rat option" where
  "ToNumber L JUndefined = None"
| "ToNumber L JNull = Some 0"
| "ToNumber L (JBool b) = Some (if b then 1 else 0)"
| "ToNumber L (JNum x) = Some x"
| "ToNumber L (JStr s) = String_toNumber L s"
| "ToNumber L (JArr xs) = String_toNumber L (ToString L (JArr xs))"
| "ToNumber L (JObj kvs) = None"

text \<open>\<^verbatim>\<open>Date.now() > v\<close>: false when \<open>v\<close> is not a number.\<close>

definition now_gt :: "node_lib \<Rightarrow> int \<Rightarrow> jsval \<Rightarrow> bool" where
  "now_gt L now v = (case ToNumber L v of None \<Rightarrow> False | Some x \<Rightarrow> x < of_int now)"

section \<open>base64url\<close>

text \<open>
  Three bytes become four characters of six bits each, from the alphabet
  \<^verbatim>\<open>A-Z a-z 0-9 - _\<close>; there is no padding.
\<close>

definition b64url_char :: "nat \<Rightarrow> char" where
  "b64url_char i =
     (if i < 26 then char_of (65 + i)
      else if i < 52 then char_of (71 + i)
      else if i < 62 then char_of (i - 4)
      else if i = 62 then CHR ''-'' else CHR ''_'')"

fun sextets :: "string \<Rightarrow> nat list" where
  "sextets (a # b # c # rest) =
     (let n = of_char a * 65536 + of_char b * 256 + (of_char c :: nat)
      in [n div 262144, n div 4096 mod 64, n div 64 mod 64, n mod 64]) @ sextets rest"
| "sextets [a, b] =
     (let n = of_char a * 1024 + (of_char b :: nat) * 4
      in [n div 4096, n div 64 mod 64, n mod 64])"
| "sextets [a] = (let n = (of_char a :: nat) * 16 in [n div 64, n mod 64])"
| "sextets [] = []"

definition b64url_encode :: "string \<Rightarrow> string" where
  "b64url_encode bs = map b64url_char (sextets bs)"

text \<open>
  Decoding, as Node's decoder does it: both the URL-safe and the standard alphabet are
  read, a character of neither is skipped, and \<^verbatim>\<open>=\<close> ends the input.
\<close>

definition unbase64 :: "char \<Rightarrow> nat option" where
  "unbase64 c =
     (let n = (of_char c :: nat) in
      if 65 \<le> n \<and> n \<le> 90 then Some (n - 65)
      else if 97 \<le> n \<and> n \<le> 122 then Some (n - 71)
      else if 48 \<le> n \<and> n \<le> 57 then Some (n + 4)
      else if c = CHR ''-'' \<or> c = CHR ''+'' then Some 62
      else if c = CHR ''_'' \<or> c = CHR ''/'' then Some 63
      else None)"

fun unsextets :: "nat list \<Rightarrow> string" where
  "unsextets (p # q # r # s # rest) =
     (let n = ((p * 64 + q) * 64 + r) * 64 + s
      in [char_of (n div 65536), char_of (n div 256 mod 256), char_of (n mod 256)]) @ unsextets rest"
| "unsextets [p, q, r] =
     (let n = (p * 64 + q) * 64 + r in [char_of (n div 1024), char_of (n div 4 mod 256)])"
| "unsextets [p, q] = [char_of ((p * 64 + q) div 16)]"
| "unsextets [p] = []"
| "unsextets [] = []"

definition b64url_decode :: "string \<Rightarrow> string" where
  "b64url_decode s = unsextets (List.map_filter unbase64 (takeWhile (\<lambda>c. c \<noteq> CHR ''='') s))"

section \<open>Configuration\<close>

text \<open>
  The environment variables server/index.ts reads at start (it refuses to start without
  \<^verbatim>\<open>SESSION_SECRET\<close>), and its constants.
\<close>

record server_env =
  SPOTIFY_CLIENT_ID :: string
  SPOTIFY_CLIENT_SECRET :: string
  SPOTIFY_REDIRECT_URI :: string
  SESSION_SECRET :: string

definition SPOTIFY_TOKEN :: string where
  "SPOTIFY_TOKEN = ''https://accounts.spotify.com/api/token''"

definition SPOTIFY_API :: string where
  "SPOTIFY_API = ''https://api.spotify.com/v1''"

definition ACCESS_MS :: nat where
  "ACCESS_MS = 60 * 60 * 1000"

definition REFRESH_MS :: nat where
  "REFRESH_MS = 30 * 24 * 60 * 60 * 1000"

section \<open>Stateless signed state\<close>

text \<open>
  \<^verbatim>\<open>type StatePayload = { n: string; rt?: string; exp: number }\<close>.  The expiry is a
  time in milliseconds, as \<^verbatim>\<open>Date.now()\<close> counts it: an integer.
\<close>

record StatePayload =
  sp_n :: string
  sp_rt :: "string option"
  sp_exp :: int

text \<open>The object a payload is at run time: \<^verbatim>\<open>rt\<close> is a property only when present.\<close>

definition payload_object :: "StatePayload \<Rightarrow> jsval" where
  "payload_object p =
     JObj ([(''n'', JStr (sp_n p))]
           @ (case sp_rt p of None \<Rightarrow> [] | Some r \<Rightarrow> [(''rt'', JStr r)])
           @ [(''exp'', JNum (of_int (sp_exp p)))])"

definition signState :: "node_lib \<Rightarrow> server_env \<Rightarrow> StatePayload \<Rightarrow> string" where
  "signState L env p =
     (let body = b64url_encode (JSON_stringify L (payload_object p));
          sig = b64url_encode (hmac_sha256 L (SESSION_SECRET env) body)
      in body @ ''.'' @ sig)"

text \<open>\<^verbatim>\<open>s.split(c)\<close> for a separator of one character.\<close>

fun split :: "char \<Rightarrow> string \<Rightarrow> string list" where
  "split c [] = [[]]"
| "split c (x # xs) =
     (if x = c then [] # split c xs
      else (case split c xs of [] \<Rightarrow> [[x]] | h # t \<Rightarrow> (x # h) # t))"

text \<open>Destructuring \<^verbatim>\<open>[a, b] = parts\<close>: a missing element is undefined.\<close>

definition element :: "string list \<Rightarrow> nat \<Rightarrow> string option" where
  "element parts i = (if i < length parts then Some (parts ! i) else None)"

text \<open>\<^verbatim>\<open>!s\<close> for a string that may be undefined.\<close>

definition missing :: "string option \<Rightarrow> bool" where
  "missing s = (s = None \<or> s = Some [])"

text \<open>
  \<^verbatim>\<open>crypto.timingSafeEqual(a, b)\<close>: Node throws a RangeError when the two buffers
  differ in byte length, and compares them otherwise.
\<close>

definition timingSafeEqual :: "string \<Rightarrow> string \<Rightarrow> js_error + bool" where
  "timingSafeEqual a b =
     (if length a \<noteq> length b
      then Inl (RangeError ''Input buffers must have the same byte length'')
      else Inr (a = b))"

text \<open>
  \<^verbatim>\<open>verifyState\<close>: \<open>Inr JNull\<close> is the returned null, \<open>Inr v\<close> the parsed payload
  (whatever value the body parses to: the cast checks nothing), \<open>Inl e\<close> an exception.
\<close>

definition verifyState :: "node_lib \<Rightarrow> server_env \<Rightarrow> int \<Rightarrow> string option \<Rightarrow> js_error + jsval" where
  "verifyState L env now state =
     (if missing state then Inr JNull
      else
        let parts = split CHR ''.'' (the state);
            body = element parts 0;
            sig = element parts 1
        in if missing body \<or> missing sig then Inr JNull
           else
             let expected = b64url_encode (hmac_sha256 L (SESSION_SECRET env) (the body))
             in case timingSafeEqual (the sig) expected of
                  Inl e \<Rightarrow> Inl e
                | Inr same \<Rightarrow>
                    if \<not> same then Inr JNull
                    else (case JSON_parse L (b64url_decode (the body)) of
                            Inl e \<Rightarrow> Inl e
                          | Inr payload \<Rightarrow>
                              (case get_prop payload ''exp'' of
                                 Inl e \<Rightarrow> Inl e
                               | Inr exp_v \<Rightarrow>
                                   if now_gt L now exp_v then Inr JNull else Inr payload)))"

section \<open>GET /debug/tokens\<close>

definition debug_tokens :: "express_request \<Rightarrow> effects \<Rightarrow> express_response \<times> effects" where
  "debug_tokens req fx =
     (\<lparr>res_status = 200,
       res_body = SendJson (JObj [(''hasAccess'', JBool (truthy (cookie req ''spotify_access_token''))),
                              (''hasRefresh'', JBool (truthy (cookie req ''spotify_refresh_token'')))])\<rparr>,
      fx)"

section \<open>Upstream requests\<close>

text \<open>
  The upstream services answer a request as they please, and the answer may depend on the
  requests the handler has sent before: \<open>Inl\<close> is a rejected \<^verbatim>\<open>fetch\<close> (no response).
\<close>

type_synonym network = "fetch_request list \<Rightarrow> fetch_request \<Rightarrow> js_error + upstream_response"

definition fetch ::
  "network \<Rightarrow> fetch_request \<Rightarrow> effects \<Rightarrow> (js_error + upstream_response) \<times> effects" where
  "fetch net rq fx = (net (sent fx) rq, fx\<lparr>sent := sent fx @ [rq]\<rparr>)"

text \<open>\<^verbatim>\<open>res.cookie(name, value, {...baseCookieOpts(req), maxAge})\<close>.\<close>

definition res_cookie :: "string \<Rightarrow> jsval \<Rightarrow> nat \<Rightarrow> effects \<Rightarrow> effects" where
  "res_cookie name v maxAge fx = fx\<lparr>set_cookies := set_cookies fx @ [(name, v, maxAge)]\<rparr>"

definition store_tokens :: "jsval \<Rightarrow> jsval \<Rightarrow> effects \<Rightarrow> effects" where
  "store_tokens access refresh fx =
     (let fx1 = (if truthy access then res_cookie ''spotify_access_token'' access ACCESS_MS fx else fx)
      in if truthy refresh then res_cookie ''spotify_refresh_token'' refresh REFRESH_MS fx1 else fx1)"

section \<open>GET /auth/callback\<close>

definition token_exchange :: "server_env \<Rightarrow> string \<Rightarrow> fetch_request" where
  "token_exchange env code =
     \<lparr>url = SPOTIFY_TOKEN, http_method = ''POST'', authorization = None,
      content = FormBody [(''grant_type'', ''authorization_code''), (''code'', code),
                          (''redirect_uri'', SPOTIFY_REDIRECT_URI env),
                          (''client_id'', SPOTIFY_CLIENT_ID env),
                          (''client_secret'', SPOTIFY_CLIENT_SECRET env)]\<rparr>"

definition state_mismatch :: express_response where
  "state_mismatch = \<lparr>res_status = 400, res_body = SendText ''State mismatch or missing code.''\<rparr>"

text \<open>
  The handler is an \<^verbatim>\<open>async\<close> function with no \<^verbatim>\<open>try\<close>: an exception in it is
  \<open>Inl\<close>, and no response is sent.
\<close>

definition auth_callback ::
  "node_lib \<Rightarrow> server_env \<Rightarrow> int \<Rightarrow> network \<Rightarrow> express_request \<Rightarrow> effects
   \<Rightarrow> (js_error + express_response) \<times> effects" where
  "auth_callback L env now net req fx =
     (let code = query req ''code''; state = query req ''state''
      in case verifyState L env now state of
           Inl e \<Rightarrow> (Inl e, fx)
         | Inr verified \<Rightarrow>
             if missing code \<or> \<not> truthy verified then (Inr state_mismatch, fx)
             else
               (case fetch net (token_exchange env (the code)) fx of
                  (Inl e, fx1) \<Rightarrow> (Inl e, fx1)
                | (Inr r, fx1) \<Rightarrow>
                    if \<not> ok r
                    then (Inr \<lparr>res_status = 500,
                               res_body = SendText (''Token exchange failed: '' @ up_text r)\<rparr>, fx1)
                    else
                      (case JSON_parse L (up_text r) of
                         Inl e \<Rightarrow> (Inl e, fx1)
                       | Inr tokens \<Rightarrow>
                           (case get_prop tokens ''scope'' of
                              Inl e \<Rightarrow> (Inl e, fx1)
                            | Inr scope \<Rightarrow>
                                (let fx2 = store_tokens (get_opt tokens ''access_token'')
                                             (get_opt tokens ''refresh_token'') fx1
                                 in (Inr \<lparr>res_status = 302,
                                          res_body = Redirect (ToString L (js_or (get_opt verified ''rt'')
                                                                        (JStr ''/connected'')))\<rparr>,
                                     fx2))))))"

section \<open>Refresh and proxy helpers\<close>

definition refresh_request :: "node_lib \<Rightarrow> server_env \<Rightarrow> jsval \<Rightarrow> fetch_request" where
  "refresh_request L env refresh_token =
     \<lparr>url = SPOTIFY_TOKEN, http_method = ''POST'', authorization = None,
      content = FormBody [(''grant_type'', ''refresh_token''),
                          (''refresh_token'', ToString L refresh_token),
                          (''client_id'', SPOTIFY_CLIENT_ID env),
                          (''client_secret'', SPOTIFY_CLIENT_SECRET env)]\<rparr>"

definition refreshAccessToken ::
  "node_lib \<Rightarrow> server_env \<Rightarrow> network \<Rightarrow> express_request \<Rightarrow> effects
   \<Rightarrow> (js_error + jsval) \<times> effects" where
  "refreshAccessToken L env net req fx =
     (let refresh_token = cookie req ''spotify_refresh_token''
      in if \<not> truthy refresh_token then (Inr JNull, fx)
         else
           (case fetch net (refresh_request L env refresh_token) fx of
              (Inl e, fx1) \<Rightarrow> (Inl e, fx1)
            | (Inr r, fx1) \<Rightarrow>
                if \<not> ok r then (Inr JNull, fx1)
                else
                  (case JSON_parse L (up_text r) of
                     Inl e \<Rightarrow> (Inl e, fx1)
                   | Inr json \<Rightarrow>
                       (case get_prop json ''access_token'' of
                          Inl e \<Rightarrow> (Inl e, fx1)
                        | Inr access_token \<Rightarrow>
                            (Inr access_token,
                             store_tokens access_token (get_opt json ''refresh_token'') fx1)))))"

text \<open>\<^verbatim>\<open>doFetch\<close>: the resource request, with the access token of the moment.\<close>

definition resource_request :: "node_lib \<Rightarrow> string \<Rightarrow> jsval \<Rightarrow> fetch_request" where
  "resource_request L path access =
     \<lparr>url = SPOTIFY_API @ path, http_method = ''GET'',
      authorization = Some (''Bearer '' @ ToString L access), content = NoBody\<rparr>"

text \<open>The end of \<^verbatim>\<open>sfetch\<close>: throw the text of a response that is not ok, parse the other.\<close>

definition json_or_throw :: "node_lib \<Rightarrow> upstream_response \<Rightarrow> js_error + jsval" where
  "json_or_throw L resp = (if \<not> ok resp then Inl (Error (up_text resp)) else JSON_parse L (up_text resp))"

definition sfetch ::
  "node_lib \<Rightarrow> server_env \<Rightarrow> network \<Rightarrow> express_request \<Rightarrow> string \<Rightarrow> effects
   \<Rightarrow> (js_error + jsval) \<times> effects" where
  "sfetch L env net req path fx =
     (let access = cookie req ''spotify_access_token''
      in case fetch net (resource_request L path access) fx of
           (Inl e, fx1) \<Rightarrow> (Inl e, fx1)
         | (Inr resp, fx1) \<Rightarrow>
             if up_status resp = 401
             then
               (case refreshAccessToken L env net req fx1 of
                  (Inl e, fx2) \<Rightarrow> (Inl e, fx2)
                | (Inr token, fx2) \<Rightarrow>
                    (let access2 = js_or token JUndefined
                     in if \<not> truthy access2
                        then (Inl (Error ''Unauthorized and refresh failed''), fx2)
                        else
                          (case fetch net (resource_request L path access2) fx2 of
                             (Inl e, fx3) \<Rightarrow> (Inl e, fx3)
                           | (Inr resp2, fx3) \<Rightarrow> (json_or_throw L resp2, fx3))))
             else (json_or_throw L resp, fx1))"

section \<open>The proxy routes\<close>

text \<open>\<^verbatim>\<open>(req.query.k as string) || dflt\<close>.\<close>

definition query_or :: "express_request \<Rightarrow> string \<Rightarrow> string \<Rightarrow> string" where
  "query_or req k dflt = (if missing (query req k) then dflt else the (query req k))"



definition top_path :: "string \<Rightarrow> express_request \<Rightarrow> string" where
  "top_path kind req =
     ''/me/top/'' @ kind @ ''?time_range='' @ query_or req ''time_range'' ''medium_term''
       @ ''&limit='' @ query_or req ''limit'' ''50''"





section \<open>GET /enriched/top-tracks\<close>

text \<open>
  The keys of a \<^verbatim>\<open>Set\<close> and of a \<^verbatim>\<open>Map\<close> are compared with SameValueZero.  The
  values compared here sit at different places of parsed JSON documents, so two of them
  are the same value only if they are equal primitives: every array and every object is
  a fresh reference.
\<close>

fun primitive :: "jsval \<Rightarrow> bool" where
  "primitive (JArr xs) = False"
| "primitive (JObj kvs) = False"
| "primitive v = True"

definition same_value_zero :: "jsval \<Rightarrow> jsval \<Rightarrow> bool" where
  "same_value_zero a b = (primitive a \<and> a = b)"

text \<open>\<^verbatim>\<open>Array.from(new Set(xs))\<close>: the first occurrence of each value, in order.\<close>

definition set_add :: "jsval list \<Rightarrow> jsval \<Rightarrow> jsval list" where
  "set_add seen v = (if list_ex (\<lambda>u. same_value_zero u v) seen then seen else seen @ [v])"

definition unique :: "jsval list \<Rightarrow> jsval list" where
  "unique xs = foldl set_add [] xs"

text \<open>
  A method of arrays (\<^verbatim>\<open>map\<close>, \<^verbatim>\<open>flatMap\<close>) called on the value of the expression
  \<open>callee\<close>: a TypeError unless the value is an array.  V8's message names the
  expression as it is written.
\<close>

definition array_of :: "jsval \<Rightarrow> string \<Rightarrow> string \<Rightarrow> js_error + jsval list" where
  "array_of v callee method =
     (case v of
        JArr xs \<Rightarrow> Inr xs
      | JUndefined \<Rightarrow> Inl (cannot_read v method)
      | JNull \<Rightarrow> Inl (cannot_read v method)
      | _ \<Rightarrow> Inl (TypeError (callee @ ''.'' @ method @ '' is not a function'')))"

text \<open>Spread \<^verbatim>\<open>...v\<close> in a call: the elements of an array, the characters of a string.\<close>

definition spread :: "jsval \<Rightarrow> js_error + jsval list" where
  "spread v =
     (case v of
        JArr xs \<Rightarrow> Inr xs
      | JStr s \<Rightarrow> Inr (map JStr (code_points s))
      | _ \<Rightarrow> Inl (TypeError ''Spread syntax requires ...iterable[Symbol.iterator] to be a function''))"

text \<open>\<^verbatim>\<open>(t.artists ?? []).map((a) => a.id)\<close>, the callback of \<^verbatim>\<open>flatMap\<close>.\<close>

definition artist_ids_of :: "jsval \<Rightarrow> js_error + jsval list" where
  "artist_ids_of t =
     (case get_prop t ''artists'' of
        Inl e \<Rightarrow> Inl e
      | Inr artists \<Rightarrow>
          (case array_of (js_coalesce artists (JArr [])) ''(t.artists ?? [])'' ''map'' of
             Inl e \<Rightarrow> Inl e
           | Inr as \<Rightarrow> map_throw (\<lambda>a. get_prop a ''id'') as))"

definition gather_artist_ids :: "jsval \<Rightarrow> js_error + jsval list" where
  "gather_artist_ids top_r =
     (case get_prop top_r ''items'' of
        Inl e \<Rightarrow> Inl e
      | Inr items \<Rightarrow>
          (case array_of items ''top.items'' ''flatMap'' of
             Inl e \<Rightarrow> Inl e
           | Inr ts \<Rightarrow>
               (case map_throw artist_ids_of ts of
                  Inl e \<Rightarrow> Inl e
                | Inr idss \<Rightarrow> Inr (unique (concat idss)))))"

text \<open>\<^verbatim>\<open>artistIds.slice(i, i + 50)\<close>.\<close>

definition slice50 :: "'a list \<Rightarrow> nat \<Rightarrow> 'a list" where
  "slice50 xs i = take 50 (drop i xs)"

definition artists_path :: "node_lib \<Rightarrow> jsval list \<Rightarrow> string" where
  "artists_path L ids = ''/artists?ids='' @ join_values L '','' ids"

text \<open>
  The loop \<^verbatim>\<open>for (let i = 0; i < artistIds.length; i += 50)\<close>, from index \<open>i\<close> on:
  one \<^verbatim>\<open>sfetch\<close> for each slice, the artists of the answers appended to
  \<^verbatim>\<open>batched\<close>; the first exception ends it.
\<close>

function fetch_batches ::
  "node_lib \<Rightarrow> server_env \<Rightarrow> network \<Rightarrow> express_request \<Rightarrow> jsval list \<Rightarrow> nat \<Rightarrow> jsval list
   \<Rightarrow> effects \<Rightarrow> (js_error + jsval list) \<times> effects" where
  "fetch_batches L env net req artistIds i batched fx =
     (if i < length artistIds
      then
        (case sfetch L env net req (artists_path L (slice50 artistIds i)) fx of
           (Inl e, fx1) \<Rightarrow> (Inl e, fx1)
         | (Inr resp, fx1) \<Rightarrow>
             (case get_prop resp ''artists'' of
                Inl e \<Rightarrow> (Inl e, fx1)
              | Inr arts \<Rightarrow>
                  (case spread (js_or arts (JArr [])) of
                     Inl e \<Rightarrow> (Inl e, fx1)
                   | Inr xs \<Rightarrow> fetch_batches L env net req artistIds (i + 50) (batched @ xs) fx1)))
      else (Inr batched, fx))"
  by pat_completeness auto
termination
  by (relation "measure (\<lambda>(L, env, net, req, artistIds, i, batched, fx). length artistIds - i)") auto

text \<open>The slices the loop visits from index \<open>i\<close> on, when no call fails.\<close>

function batches_from :: "'a list \<Rightarrow> nat \<Rightarrow> 'a list list" where
  "batches_from xs i = (if i < length xs then slice50 xs i # batches_from xs (i + 50) else [])"
  by pat_completeness auto
termination
  by (relation "measure (\<lambda>(xs, i). length xs - i)") auto

declare fetch_batches.simps [simp del] batches_from.simps [simp del]

text \<open>
  One \<^verbatim>\<open>sfetch\<close> call for each batch of a list, in order, for the path
  \<^verbatim>\<open>/artists?ids=\<close> followed by the ids of the batch joined with commas: what the loop
  does, stated over the list of its slices.
\<close>

fun sfetch_each ::
  "node_lib \<Rightarrow> server_env \<Rightarrow> network \<Rightarrow> express_request \<Rightarrow> jsval list list \<Rightarrow> jsval list
   \<Rightarrow> effects \<Rightarrow> (js_error + jsval list) \<times> effects" where
  "sfetch_each L env net req [] batched fx = (Inr batched, fx)"
| "sfetch_each L env net req (b # bs) batched fx =
     (case sfetch L env net req
             (''/artists?ids=''
                @ join '','' (map (\<lambda>v. if v = JUndefined \<or> v = JNull then [] else ToString L v) b))
             fx of
        (Inl e, fx1) \<Rightarrow> (Inl e, fx1)
      | (Inr resp, fx1) \<Rightarrow>
          (case get_prop resp ''artists'' of
             Inl e \<Rightarrow> (Inl e, fx1)
           | Inr arts \<Rightarrow>
               (case spread (js_or arts (JArr [])) of
                  Inl e \<Rightarrow> (Inl e, fx1)
                | Inr xs \<Rightarrow> sfetch_each L env net req bs (batched @ xs) fx1)))"

text \<open>
  \<^verbatim>\<open>new Map(batched.map((a) => [a.id, a.genres || []]))\<close> as the list of its entries;
  \<^verbatim>\<open>get\<close> finds the last entry written under the key.
\<close>

definition genre_entries :: "jsval list \<Rightarrow> js_error + (jsval \<times> jsval) list" where
  "genre_entries batched =
     map_throw (\<lambda>a. case get_prop a ''id'' of
                       Inl e \<Rightarrow> Inl e
                     | Inr k \<Rightarrow> Inr (k, js_or (get_opt a ''genres'') (JArr []))) batched"

definition Map_get :: "(jsval \<times> jsval) list \<Rightarrow> jsval \<Rightarrow> jsval" where
  "Map_get entries k =
     (case filter (\<lambda>(k', v). same_value_zero k' k) entries of
        [] \<Rightarrow> JUndefined
      | e # es \<Rightarrow> snd (last (e # es)))"

definition enrich_artist :: "(jsval \<times> jsval) list \<Rightarrow> jsval \<Rightarrow> js_error + jsval" where
  "enrich_artist genresByArtist a =
     (case get_prop a ''id'' of
        Inl e \<Rightarrow> Inl e
      | Inr aid \<Rightarrow>
          Inr (JObj [(''id'', aid), (''name'', get_opt a ''name''),
                     (''genres'', js_or (Map_get genresByArtist aid) (JArr []))]))"

definition enrich_track :: "(jsval \<times> jsval) list \<Rightarrow> jsval \<Rightarrow> js_error + jsval" where
  "enrich_track genresByArtist t =
     (case get_prop t ''id'' of
        Inl e \<Rightarrow> Inl e
      | Inr tid \<Rightarrow>
          (let album = get_opt t ''album''
           in case array_of (js_or (get_opt t ''artists'') (JArr [])) ''(t.artists || [])'' ''map'' of
                Inl e \<Rightarrow> Inl e
              | Inr as \<Rightarrow>
                  (case map_throw (enrich_artist genresByArtist) as of
                     Inl e \<Rightarrow> Inl e
                   | Inr artists \<Rightarrow>
                       Inr (JObj [(''id'', tid), (''name'', get_opt t ''name''),
                                  (''uri'', get_opt t ''uri''),
                                  (''popularity'', get_opt t ''popularity''),
                                  (''duration_ms'', get_opt t ''duration_ms''),
                                  (''explicit'', get_opt t ''explicit''),
                                  (''album'', JObj [(''id'', get_opt album ''id''),
                                                    (''name'', get_opt album ''name''),
                                                    (''release_date'', get_opt album ''release_date'')]),
                                  (''artists'', JArr artists)]))))"

text \<open>The body of the \<^verbatim>\<open>try\<close> block: the value sent, or the exception caught.\<close>

definition enriched_body ::
  "node_lib \<Rightarrow> server_env \<Rightarrow> network \<Rightarrow> express_request \<Rightarrow> effects \<Rightarrow> (js_error + jsval) \<times> effects" where
  "enriched_body L env net req fx =
     (case sfetch L env net req (top_path ''tracks'' req) fx of
        (Inl e, fx1) \<Rightarrow> (Inl e, fx1)
      | (Inr top_r, fx1) \<Rightarrow>
          (case gather_artist_ids top_r of
             Inl e \<Rightarrow> (Inl e, fx1)
           | Inr artistIds \<Rightarrow>
               (case fetch_batches L env net req artistIds 0 [] fx1 of
                  (Inl e, fx2) \<Rightarrow> (Inl e, fx2)
                | (Inr batched, fx2) \<Rightarrow>
                    (case genre_entries batched of
                       Inl e \<Rightarrow> (Inl e, fx2)
                     | Inr genresByArtist \<Rightarrow>
                         (case map_throw (enrich_track genresByArtist)
                                 (case get_opt top_r ''items'' of JArr ts \<Rightarrow> ts | _ \<Rightarrow> []) of
                            Inl e \<Rightarrow> (Inl e, fx2)
                          | Inr items \<Rightarrow> (Inr (JObj [(''items'', JArr items)]), fx2))))))"

text \<open>
  \<^verbatim>\<open>catch (e) { res.status(500).json({ error: e.message || fallback }) }\<close>
\<close>

definition json_or_500_json ::
  "string \<Rightarrow> (js_error + jsval) \<times> effects \<Rightarrow> express_response \<times> effects" where
  "json_or_500_json fallback r =
     (case r of
        (Inr v, fx) \<Rightarrow> (\<lparr>res_status = 200, res_body = SendJson v\<rparr>, fx)
      | (Inl e, fx) \<Rightarrow>
          (\<lparr>res_status = 500,
            res_body = SendJson (JObj [(''error'', JStr (if message e = [] then fallback else message e))])\<rparr>,
           fx))"

definition enriched_top_tracks ::
  "node_lib \<Rightarrow> server_env \<Rightarrow> network \<Rightarrow> express_request \<Rightarrow> effects \<Rightarrow> express_response \<times> effects" where
  "enriched_top_tracks L env net req fx = json_or_500_json ''failed'' (enriched_body L env net req fx)"

section \<open>GET /debug/topcounts\<close>

text \<open>
  The handler starts its three \<^verbatim>\<open>sfetch\<close> calls together and waits for them with
  \<^verbatim>\<open>Promise.all\<close>.  A call runs until it waits for a response, so at every moment it
  waits for the response to its first request, to the token request or to its second
  request, or it has settled.  The response a request will get is fixed when it is
  sent, as in \<open>fetch\<close>.  \<open>sfetch_start\<close> and \<open>sfetch_resume\<close> are the body of
  \<^verbatim>\<open>sfetch\<close>, with \<^verbatim>\<open>refreshAccessToken\<close> in its place, cut at these awaits.
\<close>

datatype sfetch_call =
    AwaitResource "js_error + upstream_response"
  | AwaitToken "js_error + upstream_response"
  | AwaitRetry "js_error + upstream_response"
  | Settled "js_error + jsval"

text \<open>Calling \<^verbatim>\<open>sfetch\<close>: the first request is sent at once.\<close>

definition sfetch_start ::
  "node_lib \<Rightarrow> network \<Rightarrow> express_request \<Rightarrow> string \<Rightarrow> effects \<Rightarrow> sfetch_call \<times> effects" where
  "sfetch_start L net req path fx =
     (case fetch net (resource_request L path (cookie req ''spotify_access_token'')) fx of
        (r, fx1) \<Rightarrow> (AwaitResource r, fx1))"

text \<open>
  What \<^verbatim>\<open>sfetch\<close> does with the value of \<^verbatim>\<open>refreshAccessToken\<close>: throw, or send the
  second request.
\<close>

definition after_refresh ::
  "node_lib \<Rightarrow> network \<Rightarrow> string \<Rightarrow> jsval \<Rightarrow> effects \<Rightarrow> sfetch_call \<times> effects" where
  "after_refresh L net path token fx =
     (let access2 = js_or token JUndefined
      in if \<not> truthy access2
         then (Settled (Inl (Error ''Unauthorized and refresh failed'')), fx)
         else (case fetch net (resource_request L path access2) fx of
                 (r, fx1) \<Rightarrow> (AwaitRetry r, fx1)))"

text \<open>The call goes on when the response it waits for arrives, up to its next wait.\<close>

definition sfetch_resume ::
  "node_lib \<Rightarrow> server_env \<Rightarrow> network \<Rightarrow> express_request \<Rightarrow> string \<Rightarrow> sfetch_call \<Rightarrow> effects
   \<Rightarrow> sfetch_call \<times> effects" where
  "sfetch_resume L env net req path call fx =
     (case call of
        AwaitResource r \<Rightarrow>
          (case r of
             Inl e \<Rightarrow> (Settled (Inl e), fx)
           | Inr resp \<Rightarrow>
               if up_status resp = 401
               then
                 (let refresh_token = cookie req ''spotify_refresh_token''
                  in if \<not> truthy refresh_token then after_refresh L net path JNull fx
                     else (case fetch net (refresh_request L env refresh_token) fx of
                             (r2, fx1) \<Rightarrow> (AwaitToken r2, fx1)))
               else (Settled (json_or_throw L resp), fx))
      | AwaitToken r \<Rightarrow>
          (case r of
             Inl e \<Rightarrow> (Settled (Inl e), fx)
           | Inr tr \<Rightarrow>
               if \<not> ok tr then after_refresh L net path JNull fx
               else
                 (case JSON_parse L (up_text tr) of
                    Inl e \<Rightarrow> (Settled (Inl e), fx)
                  | Inr json \<Rightarrow>
                      (case get_prop json ''access_token'' of
                         Inl e \<Rightarrow> (Settled (Inl e), fx)
                       | Inr access_token \<Rightarrow>
                           after_refresh L net path access_token
                             (store_tokens access_token (get_opt json ''refresh_token'') fx))))
      | AwaitRetry r \<Rightarrow>
          (Settled (case r of Inl e \<Rightarrow> Inl e | Inr resp2 \<Rightarrow> json_or_throw L resp2), fx)
      | Settled x \<Rightarrow> (Settled x, fx))"

definition topcounts_paths :: "string list" where
  "topcounts_paths =
     [''/me/top/tracks?time_range=short_term&limit=50'',
      ''/me/top/tracks?time_range=medium_term&limit=50'',
      ''/me/top/tracks?time_range=long_term&limit=50'']"

text \<open>The calls are started in order; each is kept with its path.\<close>

fun start_all ::
  "node_lib \<Rightarrow> network \<Rightarrow> express_request \<Rightarrow> string list \<Rightarrow> effects
   \<Rightarrow> (string \<times> sfetch_call) list \<times> effects" where
  "start_all L net req [] fx = ([], fx)"
| "start_all L net req (p # ps) fx =
     (case sfetch_start L net req p fx of
        (c, fx1) \<Rightarrow>
          (case start_all L net req ps fx1 of
             (cs, fx2) \<Rightarrow> ((p, c) # cs, fx2)))"

definition fulfilled :: "string \<times> sfetch_call \<Rightarrow> jsval option" where
  "fulfilled pc = (case snd pc of Settled (Inr v) \<Rightarrow> Some v | _ \<Rightarrow> None)"

definition all_fulfilled :: "(string \<times> sfetch_call) list \<Rightarrow> jsval list option" where
  "all_fulfilled cs =
     (let vs = List.map_filter fulfilled cs
      in if length vs = length cs then Some vs else None)"

text \<open>
  \<^verbatim>\<open>await Promise.all(...)\<close>.  The schedule names, one after the other, the call whose
  response arrives next.  The promise rejects with the exception of the first call to
  throw, and is fulfilled with the values of the calls, in the order of the calls, once
  all of them have returned.  \<open>None\<close>: the schedule has ended and the promise is still
  pending.  The effects are those up to the moment the promise settles.
\<close>

fun await_all ::
  "node_lib \<Rightarrow> server_env \<Rightarrow> network \<Rightarrow> express_request \<Rightarrow> nat list
   \<Rightarrow> (string \<times> sfetch_call) list \<Rightarrow> effects \<Rightarrow> (js_error + jsval list) option \<times> effects" where
  "await_all L env net req [] cs fx = (None, fx)"
| "await_all L env net req (i # schedule) cs fx =
     (if i < length cs
      then
        (case sfetch_resume L env net req (fst (cs ! i)) (snd (cs ! i)) fx of
           (c, fx1) \<Rightarrow>
             (case c of
                Settled (Inl e) \<Rightarrow> (Some (Inl e), fx1)
              | _ \<Rightarrow>
                  (case all_fulfilled (cs[i := (fst (cs ! i), c)]) of
                     Some vs \<Rightarrow> (Some (Inr vs), fx1)
                   | None \<Rightarrow> await_all L env net req schedule (cs[i := (fst (cs ! i), c)]) fx1)))
      else await_all L env net req schedule cs fx)"

text \<open>\<^verbatim>\<open>t.items?.length || 0\<close>.\<close>

definition items_count :: "jsval \<Rightarrow> js_error + jsval" where
  "items_count t =
     (case get_prop t ''items'' of
        Inl e \<Rightarrow> Inl e
      | Inr items \<Rightarrow> Inr (js_or (get_opt items ''length'') (JNum 0)))"

text \<open>The rest of the \<^verbatim>\<open>try\<close> block, from the outcome of \<^verbatim>\<open>Promise.all\<close>.\<close>

definition topcounts_body :: "js_error + jsval list \<Rightarrow> js_error + jsval" where
  "topcounts_body settled =
     (case settled of
        Inl e \<Rightarrow> Inl e
      | Inr ts \<Rightarrow>
          (case map_throw items_count (take 3 ts) of
             Inl e \<Rightarrow> Inl e
           | Inr counts \<Rightarrow> Inr (JObj (zip [''short'', ''medium'', ''long''] counts))))"

text \<open>
  The handler: \<open>None\<close> when the schedule ends before the handler has responded.
\<close>

definition debug_topcounts ::
  "node_lib \<Rightarrow> server_env \<Rightarrow> network \<Rightarrow> express_request \<Rightarrow> nat list \<Rightarrow> effects
   \<Rightarrow> express_response option \<times> effects" where
  "debug_topcounts L env net req schedule fx =
     (case start_all L net req topcounts_paths fx of
        (cs, fx1) \<Rightarrow>
          (case await_all L env net req schedule cs fx1 of
             (None, fx2) \<Rightarrow> (None, fx2)
           | (Some settled, fx2) \<Rightarrow>
               (case json_or_500_json ''failed'' (topcounts_body settled, fx2) of
                  (resp, fx3) \<Rightarrow> (Some resp, fx3))))"

section \<open>chat.ts\<close>

record chat_env =
  URL_CHAT :: string
  API_KEY :: jsval
  MODEL :: string

text \<open>An object literal \<^verbatim>\<open>{k1: v.k1, k2: v.k2, ...}\<close>, its properties read in order.\<close>

definition project :: "jsval \<Rightarrow> string list \<Rightarrow> js_error + jsval" where
  "project v keys =
     (case map_throw (\<lambda>k. case get_prop v k of Inl e \<Rightarrow> Inl e | Inr x \<Rightarrow> Inr (k, x)) keys of
        Inl e \<Rightarrow> Inl e
      | Inr kvs \<Rightarrow> Inr (JObj kvs))"

text \<open>\<^verbatim>\<open>const topN = (a, n) => (Array.isArray(a) ? a.slice(0, n) : [])\<close>.\<close>

definition topN :: "jsval \<Rightarrow> nat \<Rightarrow> jsval list" where
  "topN a n = (case a of JArr xs \<Rightarrow> take n xs | _ \<Rightarrow> [])"

definition track_keys :: "string list" where
  "track_keys = [''id'', ''name'', ''uri'', ''artists'']"

definition artist_keys :: "string list" where
  "artist_keys = [''id'', ''name'', ''genres'', ''popularity'']"

definition recent_keys :: "string list" where
  "recent_keys = [''played_at'', ''id'', ''name'', ''artists'']"

definition compactSnapshot :: "jsval \<Rightarrow> js_error + jsval" where
  "compactSnapshot s =
     (case (if truthy (get_opt s ''profile'')
            then project (get_opt s ''profile'') [''id'', ''displayName'', ''country'']
            else Inr (get_opt s ''profile'')) of
        Inl e \<Rightarrow> Inl e
      | Inr profile \<Rightarrow>
          (case map_throw (\<lambda>t. project t track_keys)
                  (topN (js_or (get_opt s ''topTracks'') (JArr [])) 25) of
             Inl e \<Rightarrow> Inl e
           | Inr topTracks \<Rightarrow>
               (case map_throw (\<lambda>a. project a artist_keys)
                       (topN (js_or (get_opt s ''topArtists'') (JArr [])) 20) of
                  Inl e \<Rightarrow> Inl e
                | Inr topArtists \<Rightarrow>
                    (case map_throw (\<lambda>r. project r recent_keys)
                            (topN (js_or (get_opt s ''recent'') (JArr [])) 20) of
                       Inl e \<Rightarrow> Inl e
                     | Inr recent \<Rightarrow>
                         Inr (JObj [(''generatedAt'', get_opt s ''generatedAt''),
                                    (''profile'', profile),
                                    (''topTracks'', JArr topTracks),
                                    (''topArtists'', JArr topArtists),
                                    (''recent'', JArr recent)])))))"

text \<open>The content of the user message: the compacted snapshot and the question.\<close>

definition user_content :: "node_lib \<Rightarrow> jsval \<Rightarrow> jsval \<Rightarrow> string" where
  "user_content L slim question =
     ''SNAPSHOT:'' @ [CHR 0x0A] @ ''```json'' @ [CHR 0x0A] @ JSON_stringify L slim @ [CHR 0x0A]
       @ ''```'' @ [CHR 0x0A] @ ''QUESTION: '' @ ToString L question"

definition chat_request :: "node_lib \<Rightarrow> chat_env \<Rightarrow> jsval \<Rightarrow> jsval \<Rightarrow> fetch_request" where
  "chat_request L cenv slim question =
     \<lparr>url = URL_CHAT cenv, http_method = ''POST'',
      authorization = Some (''Bearer '' @ ToString L (API_KEY cenv)),
      content = JsonBody (JObj
        [(''model'', JStr (MODEL cenv)),
         (''temperature'', JNum (2 / 10)),
         (''messages'', JArr
            [JObj [(''role'', JStr ''system''),
                   (''content'', JStr ''You are a friendly music analyst. Use ONLY the JSON snapshot provided.'')],
             JObj [(''role'', JStr ''user''),
                   (''content'', JStr (user_content L slim question))]])])\<rparr>"

text \<open>\<^verbatim>\<open>v?.[0]\<close>.\<close>

definition first_opt :: "node_lib \<Rightarrow> jsval \<Rightarrow> jsval" where
  "first_opt L v =
     (case v of
        JArr xs \<Rightarrow> (case xs of [] \<Rightarrow> JUndefined | x # _ \<Rightarrow> x)
      | JStr s \<Rightarrow> String_at L s 0
      | JObj kvs \<Rightarrow> (case map_of kvs ''0'' of Some x \<Rightarrow> x | None \<Rightarrow> JUndefined)
      | _ \<Rightarrow> JUndefined)"

definition json_response :: "nat \<Rightarrow> (string \<times> jsval) list \<Rightarrow> express_response" where
  "json_response st kvs = \<lparr>res_status = st, res_body = SendJson (JObj kvs)\<rparr>"

text \<open>The \<^verbatim>\<open>try\<close> block of \<^verbatim>\<open>POST /\<close>: the response sent, or the exception caught.\<close>

definition chat_try ::
  "node_lib \<Rightarrow> chat_env \<Rightarrow> network \<Rightarrow> express_request \<Rightarrow> effects
   \<Rightarrow> (js_error + express_response) \<times> effects" where
  "chat_try L cenv net req fx =
     (let b = js_or (req_body req) (JObj []);
          question = get_opt b ''question'';
          snapshot = get_opt b ''snapshot''
      in if \<not> truthy question \<or> \<not> truthy snapshot
         then (Inr (json_response 400 [(''error'', JStr ''Missing question or snapshot'')]), fx)
         else if \<not> truthy (API_KEY cenv)
         then (Inr (json_response 500
                      [(''error'', JStr ''Missing DIGITALOCEAN_AGENT_KEY (or INFERENCE_KEY)'')]), fx)
         else
           (case compactSnapshot snapshot of
              Inl e \<Rightarrow> (Inl e, fx)
            | Inr slim \<Rightarrow>
                (case fetch net (chat_request L cenv slim question) fx of
                   (Inl e, fx1) \<Rightarrow> (Inl e, fx1)
                 | (Inr r, fx1) \<Rightarrow>
                     if \<not> ok r
                     then (Inr (json_response (up_status r) [(''error'', JStr (up_text r))]), fx1)
                     else
                       (case JSON_parse L (up_text r) of
                          Inl e \<Rightarrow> (Inl e, fx1)
                        | Inr json \<Rightarrow>
                            (case get_prop json ''choices'' of
                               Inl e \<Rightarrow> (Inl e, fx1)
                             | Inr choices \<Rightarrow>
                                 (Inr (json_response 200
                                         [(''answer'',
                                           js_coalesce
                                             (get_opt (get_opt (first_opt L choices) ''message'') ''content'')
                                             (JStr []))]),
                                  fx1))))))"

definition chat_post ::
  "node_lib \<Rightarrow> chat_env \<Rightarrow> network \<Rightarrow> express_request \<Rightarrow> effects \<Rightarrow> express_response \<times> effects" where
  "chat_post L cenv net req fx =
     (case chat_try L cenv net req fx of
        (Inr resp, fx1) \<Rightarrow> (resp, fx1)
      | (Inl e, fx1) \<Rightarrow>
          (json_response 500
             [(''error'', JStr (if message e = [] then ''chat failed'' else message e))], fx1))"

section \<open>Route tables\<close>

datatype verb = GET | POST

type_synonym route = "verb \<times> string"

text \<open>
  \<^verbatim>\<open>app.use(prefix, router)\<close>: a router's route \<^verbatim>\<open>/\<close> answers at the prefix itself,
  any other route at prefix followed by its path.
\<close>

definition mount :: "string \<Rightarrow> route list \<Rightarrow> route list" where
  "mount prefix rs = map (\<lambda>(v, p). (v, if p = ''/'' then prefix else prefix @ p)) rs"

text \<open>chat.ts: the routes \<^verbatim>\<open>chatRouter()\<close> registers, in order.\<close>

definition chatRouter_routes :: "route list" where
  "chatRouter_routes = [(GET, ''/test''), (POST, ''/'')]"

text \<open>server/index.ts: the routes of the application that mounts the chat router.\<close>

definition server_routes :: "route list" where
  "server_routes =
     [(GET, ''/auth/login''), (GET, ''/auth/callback''), (GET, ''/debug/tokens''),
      (GET, ''/spotify/me''), (GET, ''/spotify/top-tracks''), (GET, ''/spotify/top-artists''),
      (GET, ''/spotify/recent''), (GET, ''/enriched/top-tracks''), (GET, ''/debug/topcounts'')]
     @ mount ''/chat'' chatRouter_routes"

text \<open>src/index.ts: a second application, listening on the same port.\<close>

definition index_routes :: "route list" where
  "index_routes =
     [(GET, ''/''), (GET, ''/auth/login''), (GET, ''/auth/callback''), (GET, ''/auth/refresh''),
      (GET, ''/spotify/me''), (GET, ''/spotify/top-tracks''), (GET, ''/spotify/top-artists''),
      (GET, ''/spotify/recent''), (GET, ''/spotify/features'')]"

text \<open>src/Server.ts: a third application, exported for a caller to start.\<close>

definition Server_routes :: "route list" where
  "Server_routes = [(GET, ''/hi'')]"

definition repository_routes :: "route list" where
  "repository_routes = server_routes @ index_routes @ Server_routes"

text \<open>The eleven routes section 6 of the specification lists.\<close>

definition documented_surface :: "route list" where
  "documented_surface =
     [(GET, ''/auth/login''), (GET, ''/auth/callback''), (GET, ''/spotify/me''),
      (GET, ''/spotify/top-tracks''), (GET, ''/spotify/top-artists''), (GET, ''/spotify/recent''),
      (GET, ''/enriched/top-tracks''), (GET, ''/debug/topcounts''), (GET, ''/debug/tokens''),
      (POST, ''/chat''), (GET, ''/chat/test'')]"

section \<open>Predicates and concrete inputs used in the statements\<close>

text \<open>
  No entry that \<^verbatim>\<open>compactSnapshot\<close> keeps (the first 25 top tracks, the first 20 top
  artists, the first 20 recent plays) is null or undefined.
\<close>

definition entries_present :: "jsval \<Rightarrow> bool" where
  "entries_present s =
     (list_all (\<lambda>x. \<not> nullish x) (topN (js_or (get_opt s ''topTracks'') (JArr [])) 25)
      \<and> list_all (\<lambda>x. \<not> nullish x) (topN (js_or (get_opt s ''topArtists'') (JArr [])) 20)
      \<and> list_all (\<lambda>x. \<not> nullish x) (topN (js_or (get_opt s ''recent'') (JArr [])) 20))"

definition empty_compact :: jsval where
  "empty_compact =
     JObj [(''generatedAt'', JUndefined), (''profile'', JUndefined), (''topTracks'', JArr []),
           (''topArtists'', JArr []), (''recent'', JArr [])]"

text \<open>A snapshot of thirty top tracks, each with a field the compaction drops.\<close>

definition sample_track :: jsval where
  "sample_track =
     JObj [(''id'', JStr ''t1''), (''name'', JStr ''Song''), (''uri'', JStr ''spotify:track:t1''),
           (''artists'', JArr [JStr ''Band'']), (''popularity'', JNum 50)]"

definition sample_snapshot :: jsval where
  "sample_snapshot =
     JObj [(''generatedAt'', JStr ''2025-01-01''),
           (''profile'', JObj [(''id'', JStr ''u1''), (''email'', JStr ''u1@example.org'')]),
           (''topTracks'', JArr (replicate 30 sample_track)),
           (''topArtists'', JStr ''none'')]"

definition sample_compact :: jsval where
  "sample_compact =
     JObj [(''generatedAt'', JStr ''2025-01-01''),
           (''profile'', JObj [(''id'', JStr ''u1''), (''displayName'', JUndefined),
                               (''country'', JUndefined)]),
           (''topTracks'', JArr (replicate 25
              (JObj [(''id'', JStr ''t1''), (''name'', JStr ''Song''),
                     (''uri'', JStr ''spotify:track:t1''), (''artists'', JArr [JStr ''Band''])]))),
           (''topArtists'', JArr []),
           (''recent'', JArr [])]"

text \<open>A request that carries the two token cookies and nothing else.\<close>

definition request_with_tokens :: "jsval \<Rightarrow> jsval \<Rightarrow> express_request" where
  "request_with_tokens access refresh =
     \<lparr>query = Map.empty,
      cookies = [''spotify_access_token'' \<mapsto> access, ''spotify_refresh_token'' \<mapsto> refresh],
      req_body = JUndefined\<rparr>"

text \<open>
  A configuration, a payload as \<^verbatim>\<open>GET /auth/login\<close> builds one, and a stand-in for
  the runtime library to evaluate the model with: its digest has the 32 bytes of
  SHA-256, and its JSON functions know the documents listed in \<open>stub_documents\<close>.
\<close>

definition sample_env :: server_env where
  "sample_env =
     \<lparr>SPOTIFY_CLIENT_ID = ''client-id'', SPOTIFY_CLIENT_SECRET = ''client-secret'',
      SPOTIFY_REDIRECT_URI = ''http://127.0.0.1:8080/auth/callback'',
      SESSION_SECRET = ''session-secret''\<rparr>"

definition sample_payload :: StatePayload where
  "sample_payload =
     \<lparr>sp_n = ''0f1e2d3c4b5a69788796a5b4c3d2e1f0'', sp_rt = Some ''http://127.0.0.1:4200'',
      sp_exp = 1700000600000\<rparr>"

definition quoted :: "string \<Rightarrow> string" where
  "quoted s = [CHR 0x22] @ s @ [CHR 0x22]"

definition sample_payload_text :: string where
  "sample_payload_text =
     ''{'' @ quoted ''n'' @ '':'' @ quoted ''0f1e2d3c4b5a69788796a5b4c3d2e1f0'' @ '',''
       @ quoted ''rt'' @ '':'' @ quoted ''http://127.0.0.1:4200'' @ '',''
       @ quoted ''exp'' @ '':1700000600000}''"

definition tokens_text :: string where
  "tokens_text = ''{'' @ quoted ''access_token'' @ '':'' @ quoted ''fresh-token'' @ ''}''"

definition profile_text :: string where
  "profile_text = ''{'' @ quoted ''id'' @ '':'' @ quoted ''u1'' @ ''}''"

definition stub_documents :: "(string \<times> jsval) list" where
  "stub_documents =
     [(sample_payload_text, payload_object sample_payload),
      (tokens_text, JObj [(''access_token'', JStr ''fresh-token'')]),
      (profile_text, JObj [(''id'', JStr ''u1'')])]"

definition stub_lib :: node_lib where
  "stub_lib =
     \<lparr>hmac_sha256 = (\<lambda>key data. replicate 32 (char_of (length key + length data))),
      JSON_parse = (\<lambda>s. case map_of stub_documents s of
                           Some v \<Rightarrow> Inr v
                         | None \<Rightarrow> Inl (SyntaxError ''Unexpected token'')),
      JSON_stringify = (\<lambda>v. case map_of (map (\<lambda>(s, d). (d, s)) stub_documents) v of
                               Some s \<Rightarrow> s
                             | None \<Rightarrow> ''null''),
      Number_toString = (\<lambda>x. ''0''),
      String_toNumber = (\<lambda>s. None),
      String_at = (\<lambda>s i. if i < length s then JStr [s ! i] else JUndefined),
      URLSearchParams_toString = (\<lambda>ps. join ''&'' (map (\<lambda>(k, v). k @ ''='' @ v) ps))\<rparr>"

text \<open>A callback request: the query parameters \<^verbatim>\<open>code\<close> and \<^verbatim>\<open>state\<close>.\<close>

definition callback_request :: "string \<Rightarrow> string \<Rightarrow> express_request" where
  "callback_request code state =
     \<lparr>query = [''code'' \<mapsto> code, ''state'' \<mapsto> state], cookies = Map.empty,
      req_body = JUndefined\<rparr>"

text \<open>An upstream that refuses every request.\<close>

definition no_network :: network where
  "no_network sent_before rq = Inl (TypeError ''fetch failed'')"




definition always_forbidden :: network where
  "always_forbidden sent_before rq = Inr \<lparr>up_status = 403, up_text = ''Forbidden''\<rparr>"

text \<open>A request with no query, no cookie and no body.\<close>

definition bare_request :: express_request where
  "bare_request = \<lparr>query = Map.empty, cookies = Map.empty, req_body = JUndefined\<rparr>"

text \<open>
  The genres found for an artist id among the artists fetched: those of the last one
  fetched under that id (\<^verbatim>\<open>[]\<close> if it has none), and \<^verbatim>\<open>[]\<close> when none was fetched.
\<close>

definition found_genres :: "jsval list \<Rightarrow> jsval \<Rightarrow> jsval" where
  "found_genres batched aid =
     (case filter (\<lambda>b. same_value_zero (get_opt b ''id'') aid) batched of
        [] \<Rightarrow> JArr []
      | b # bs \<Rightarrow> js_or (get_opt (last (b # bs)) ''genres'') (JArr []))"

text \<open>Two top tracks that share an artist, and the artists fetched for them.\<close>

definition sample_top :: jsval where
  "sample_top =
     JObj [(''items'', JArr
       [JObj [(''id'', JStr ''t1''),
              (''artists'', JArr [JObj [(''id'', JStr ''a1''), (''name'', JStr ''First'')],
                                  JObj [(''id'', JStr ''a2''), (''name'', JStr ''Second'')]])],
        JObj [(''id'', JStr ''t2''),
              (''artists'', JArr [JObj [(''id'', JStr ''a1''), (''name'', JStr ''First'')]])]])]"

definition sample_batched :: "jsval list" where
  "sample_batched =
     [JObj [(''id'', JStr ''a1''), (''genres'', JArr [JStr ''rock''])],
      JObj [(''id'', JStr ''a2'')]]"

definition sample_entries :: "(jsval \<times> jsval) list" where
  "sample_entries = [(JStr ''a1'', JArr [JStr ''rock'']), (JStr ''a2'', JArr [])]"

text \<open>
  The calls of \<^verbatim>\<open>GET /debug/topcounts\<close> after the responses named by a schedule
  have arrived, one step of a call for each response, whether or not \<^verbatim>\<open>Promise.all\<close>
  has settled on the way.
\<close>

fun advance ::
  "node_lib \<Rightarrow> server_env \<Rightarrow> network \<Rightarrow> express_request \<Rightarrow> nat list
   \<Rightarrow> (string \<times> sfetch_call) list \<Rightarrow> effects \<Rightarrow> (string \<times> sfetch_call) list \<times> effects" where
  "advance L env net req [] cs fx = (cs, fx)"
| "advance L env net req (i # schedule) cs fx =
     (if i < length cs
      then
        (case sfetch_resume L env net req (fst (cs ! i)) (snd (cs ! i)) fx of
           (c, fx1) \<Rightarrow> advance L env net req schedule (cs[i := (fst (cs ! i), c)]) fx1)
      else advance L env net req schedule cs fx)"



text \<open>
  A catalogue upstream: it answers the request for the top tracks with the document of
  \<open>sample_top\<close>, the request for the artists a1 and a2 with the document of
  \<open>sample_batched\<close>, and everything else with 404.  \<open>catalogue_lib\<close> is the stand-in
  library with a \<^verbatim>\<open>JSON.parse\<close> that knows the two documents.  \<open>artists_limited\<close>
  answers the request for the top tracks and refuses every other request with 429.
\<close>

definition json_member :: "string \<Rightarrow> string \<Rightarrow> string" where
  "json_member k v = quoted k @ '':'' @ v"

definition top_text :: string where
  "top_text =
     ''{'' @ json_member ''items''
       (''[{'' @ json_member ''id'' (quoted ''t1'') @ '',''
            @ json_member ''artists''
                (''[{'' @ json_member ''id'' (quoted ''a1'') @ '','' @ json_member ''name'' (quoted ''First'')
                  @ ''},{'' @ json_member ''id'' (quoted ''a2'') @ '','' @ json_member ''name'' (quoted ''Second'')
                  @ ''}]'')
        @ ''},{'' @ json_member ''id'' (quoted ''t2'') @ '',''
            @ json_member ''artists''
                (''[{'' @ json_member ''id'' (quoted ''a1'') @ '','' @ json_member ''name'' (quoted ''First'')
                  @ ''}]'')
        @ ''}]'')
       @ ''}''"

definition artists_text :: string where
  "artists_text =
     ''{'' @ json_member ''artists''
       (''[{'' @ json_member ''id'' (quoted ''a1'') @ '','' @ json_member ''genres'' (''['' @ quoted ''rock'' @ '']'')
        @ ''},{'' @ json_member ''id'' (quoted ''a2'') @ ''}]'')
       @ ''}''"

definition catalogue_lib :: node_lib where
  "catalogue_lib =
     stub_lib\<lparr>JSON_parse :=
       (\<lambda>s. if s = top_text then Inr sample_top
            else if s = artists_text then Inr (JObj [(''artists'', JArr sample_batched)])
            else Inl (SyntaxError ''Unexpected token''))\<rparr>"

definition catalogue :: network where
  "catalogue sent_before rq =
     (if url rq = SPOTIFY_API @ ''/me/top/tracks?time_range=medium_term&limit=50''
      then Inr \<lparr>up_status = 200, up_text = top_text\<rparr>
      else if url rq = SPOTIFY_API @ ''/artists?ids=a1,a2''
      then Inr \<lparr>up_status = 200, up_text = artists_text\<rparr>
      else Inr \<lparr>up_status = 404, up_text = ''Not found''\<rparr>)"


text \<open>What \<^verbatim>\<open>GET /enriched/top-tracks\<close> sends for the catalogue.\<close>

definition sample_enriched :: jsval where
  "sample_enriched =
     JObj [(''items'', JArr
       [JObj [(''id'', JStr ''t1''), (''name'', JUndefined), (''uri'', JUndefined),
              (''popularity'', JUndefined), (''duration_ms'', JUndefined), (''explicit'', JUndefined),
              (''album'', JObj [(''id'', JUndefined), (''name'', JUndefined),
                                (''release_date'', JUndefined)]),
              (''artists'', JArr
                 [JObj [(''id'', JStr ''a1''), (''name'', JStr ''First''),
                        (''genres'', JArr [JStr ''rock''])],
                  JObj [(''id'', JStr ''a2''), (''name'', JStr ''Second''), (''genres'', JArr [])]])],
        JObj [(''id'', JStr ''t2''), (''name'', JUndefined), (''uri'', JUndefined),
              (''popularity'', JUndefined), (''duration_ms'', JUndefined), (''explicit'', JUndefined),
              (''album'', JObj [(''id'', JUndefined), (''name'', JUndefined),
                                (''release_date'', JUndefined)]),
              (''artists'', JArr
                 [JObj [(''id'', JStr ''a1''), (''name'', JStr ''First''),
                        (''genres'', JArr [JStr ''rock''])]])]])]"



section \<open>Lemmas\<close>

subsection \<open>base64url\<close>

lemma regroup12:
  fixes n :: nat
  shows "n div 64 * 64 + n mod 64 = n"
  by simp

lemma regroup18:
  fixes n :: nat
  shows "(n div 4096 * 64 + n div 64 mod 64) * 64 + n mod 64 = n"
proof -
  have "n div 4096 = n div 64 div 64"
    using div_mult2_eq [of n 64 64] by simp
  then show ?thesis by simp
qed

lemma regroup24:
  fixes n :: nat
  shows "((n div 262144 * 64 + n div 4096 mod 64) * 64 + n div 64 mod 64) * 64 + n mod 64 = n"
proof -
  have a: "n div 4096 = n div 64 div 64"
    using div_mult2_eq [of n 64 64] by simp
  have b: "n div 262144 = n div 64 div 64 div 64"
    using div_mult2_eq [of n 4096 64] a by simp
  show ?thesis unfolding a b by simp
qed

lemma bytes3:
  fixes a b c :: nat
  assumes "b < 256" "c < 256"
  shows "(a * 65536 + b * 256 + c) div 65536 = a"
    and "(a * 65536 + b * 256 + c) div 256 mod 256 = b"
    and "(a * 65536 + b * 256 + c) mod 256 = c"
proof -
  have r: "b * 256 + c < 65536" using assms by linarith
  have "(a * 65536 + (b * 256 + c)) div 65536 = a"
    using r by simp
  then show "(a * 65536 + b * 256 + c) div 65536 = a" by (simp add: add.assoc)
  have e: "a * 65536 + b * 256 + c = (a * 256 + b) * 256 + c" by simp
  have d: "(a * 65536 + b * 256 + c) div 256 = a * 256 + b"
    unfolding e using assms by simp
  show "(a * 65536 + b * 256 + c) div 256 mod 256 = b"
    unfolding d using assms by simp
  have m: "((a * 256 + b) * 256 + c) mod 256 = c mod 256"
    by (rule mod_mult_self3)
  show "(a * 65536 + b * 256 + c) mod 256 = c"
    unfolding e m using assms by simp
qed

lemma bytes2:
  fixes a b :: nat
  assumes "b < 256"
  shows "(a * 1024 + b * 4) div 1024 = a"
    and "(a * 1024 + b * 4) div 4 mod 256 = b"
proof -
  have r: "b * 4 < 1024" using assms by linarith
  show "(a * 1024 + b * 4) div 1024 = a" using r by simp
  have e: "a * 1024 + b * 4 = (a * 256 + b) * 4" by simp
  show "(a * 1024 + b * 4) div 4 mod 256 = b"
    unfolding e using assms by simp
qed

lemma unsextets_sextets: "unsextets (sextets bs) = bs"
proof (induction bs rule: sextets.induct)
  case (1 a b c rest)
  define n where "n = of_char a * 65536 + of_char b * 256 + (of_char c :: nat)"
  have s: "sextets (a # b # c # rest) =
      n div 262144 # n div 4096 mod 64 # n div 64 mod 64 # n mod 64 # sextets rest"
    by (simp add: n_def Let_def)
  have "unsextets (sextets (a # b # c # rest)) =
      [char_of (n div 65536), char_of (n div 256 mod 256), char_of (n mod 256)] @ unsextets (sextets rest)"
    unfolding s by (simp only: unsextets.simps Let_def regroup24)
  also have "\<dots> = a # b # c # rest"
    using 1 by (simp add: n_def bytes3)
  finally show ?case .
next
  case (2 a b)
  define n where "n = of_char a * 1024 + (of_char b :: nat) * 4"
  have s: "sextets [a, b] = [n div 4096, n div 64 mod 64, n mod 64]"
    by (simp add: n_def Let_def)
  have "unsextets (sextets [a, b]) = [char_of (n div 1024), char_of (n div 4 mod 256)]"
    unfolding s by (simp only: unsextets.simps Let_def regroup18)
  also have "\<dots> = [a, b]"
    by (simp add: n_def bytes2)
  finally show ?case .
next
  case (3 a)
  define n where "n = (of_char a :: nat) * 16"
  have s: "sextets [a] = [n div 64, n mod 64]"
    by (simp add: n_def Let_def)
  have "unsextets (sextets [a]) = [char_of (n div 16)]"
    unfolding s by (simp only: unsextets.simps regroup12)
  also have "\<dots> = [a]"
    by (simp add: n_def)
  finally show ?case .
next
  case 4
  show ?case by simp
qed

lemma sextets_lt64: "x \<in> set (sextets bs) \<Longrightarrow> x < 64"
proof (induction bs arbitrary: x rule: sextets.induct)
  case (1 a b c rest)
  define n where "n = of_char a * 65536 + of_char b * 256 + (of_char c :: nat)"
  have "n < 256 * 65536"
    unfolding n_def using nat_of_char_less_256[of a] nat_of_char_less_256[of b] nat_of_char_less_256[of c]
    by linarith
  then have "n div 262144 < 64" by simp
  with 1 show ?case by (auto simp: Let_def n_def)
next
  case (2 a b)
  define n where "n = of_char a * 1024 + (of_char b :: nat) * 4"
  have "n < 256 * 1024"
    unfolding n_def using nat_of_char_less_256[of a] nat_of_char_less_256[of b]
    by linarith
  then have "n div 4096 < 64" by simp
  with 2 show ?case by (auto simp: Let_def n_def)
next
  case (3 a)
  have "(of_char a :: nat) * 16 div 64 < 64"
    using nat_of_char_less_256[of a] by arith
  with 3 show ?case by (auto simp: Let_def)
next
  case 4
  then show ?case by simp
qed

lemma sextets_Nil_iff: "sextets bs = [] \<longleftrightarrow> bs = []"
  by (induction bs rule: sextets.induct) (simp_all add: Let_def)

lemma length_sextets: "length (sextets bs) = (4 * length bs + 2) div 3"
  by (induction bs rule: sextets.induct) (simp_all add: Let_def)

lemma unbase64_b64url_char: "i < 64 \<Longrightarrow> unbase64 (b64url_char i) = Some i"
  unfolding unbase64_def b64url_char_def Let_def
  by (simp; arith)

lemma b64url_char_code:
  "i < 64 \<Longrightarrow> (of_char (b64url_char i) :: nat) =
     (if i < 26 then 65 + i else if i < 52 then 71 + i else if i < 62 then i - 4
      else if i = 62 then 45 else 95)"
  by (simp add: b64url_char_def)

lemma b64url_char_not_dot: "i < 64 \<Longrightarrow> b64url_char i \<noteq> CHR ''.''"
proof
  assume i: "i < 64" and "b64url_char i = CHR ''.''"
  then have "(of_char (b64url_char i) :: nat) = 46" by simp
  with i show False by (simp add: b64url_char_code split: if_splits)
qed

lemma b64url_char_not_pad: "i < 64 \<Longrightarrow> b64url_char i \<noteq> CHR ''=''"
proof
  assume i: "i < 64" and "b64url_char i = CHR ''=''"
  then have "(of_char (b64url_char i) :: nat) = 61" by simp
  with i show False by (simp add: b64url_char_code split: if_splits)
qed

lemma b64url_encode_no_dot: "CHR ''.'' \<notin> set (b64url_encode bs)"
  using sextets_lt64 b64url_char_not_dot by (fastforce simp: b64url_encode_def)

lemma b64url_encode_no_pad: "CHR ''='' \<notin> set (b64url_encode bs)"
  using sextets_lt64 b64url_char_not_pad by (fastforce simp: b64url_encode_def)

lemma b64url_encode_Nil_iff: "b64url_encode bs = [] \<longleftrightarrow> bs = []"
  by (simp add: b64url_encode_def sextets_Nil_iff)

lemma length_b64url_encode: "length (b64url_encode bs) = (4 * length bs + 2) div 3"
  by (simp add: b64url_encode_def length_sextets)

lemma map_filter_unbase64:
  "(\<And>x. x \<in> set xs \<Longrightarrow> x < 64) \<Longrightarrow> List.map_filter unbase64 (map b64url_char xs) = xs"
  by (induction xs) (simp_all add: List.map_filter_simps unbase64_b64url_char)

lemma b64url_decode_encode: "b64url_decode (b64url_encode bs) = bs"
proof -
  have tw: "takeWhile (\<lambda>c. c \<noteq> CHR ''='') (b64url_encode bs) = b64url_encode bs"
    using b64url_encode_no_pad [of bs] by (auto simp: takeWhile_eq_all_conv)
  have "List.map_filter unbase64 (b64url_encode bs) = sextets bs"
    unfolding b64url_encode_def by (rule map_filter_unbase64) (rule sextets_lt64)
  then show ?thesis
    unfolding b64url_decode_def tw by (simp add: unsextets_sextets)
qed

subsection \<open>Signed state\<close>

lemma split_no_sep: "c \<notin> set s \<Longrightarrow> split c s = [s]"
  by (induction s) auto

lemma split_at_sep: "c \<notin> set a \<Longrightarrow> split c (a @ c # b) = a # split c b"
  by (induction a) auto

lemma split_signState:
  "split CHR ''.'' (b64url_encode a @ CHR ''.'' # b64url_encode b) = [b64url_encode a, b64url_encode b]"
  using split_at_sep [OF b64url_encode_no_dot, of a "b64url_encode b"]
        split_no_sep [OF b64url_encode_no_dot, of b]
  by simp

lemma get_prop_payload_exp:
  "get_prop (payload_object p) ''exp'' = Inr (JNum (of_int (sp_exp p)))"
  by (simp add: payload_object_def split: option.splits)

lemma now_gt_int: "now_gt L now (JNum (of_int e)) \<longleftrightarrow> e < now"
  by (simp add: now_gt_def)

lemma verifyState_signState:
  assumes digest: "hmac_sha256 L (SESSION_SECRET env) (b64url_encode (JSON_stringify L (payload_object p))) \<noteq> []"
    and nonempty: "JSON_stringify L (payload_object p) \<noteq> []"
    and roundtrip: "JSON_parse L (JSON_stringify L (payload_object p)) = Inr (payload_object p)"
  shows "verifyState L env now (Some (signState L env p)) =
           Inr (if sp_exp p < now then JNull else payload_object p)"
proof -
  define body where "body = b64url_encode (JSON_stringify L (payload_object p))"
  define sig where "sig = b64url_encode (hmac_sha256 L (SESSION_SECRET env) body)"
  have st: "signState L env p = body @ CHR ''.'' # sig"
    by (simp add: signState_def body_def sig_def Let_def)
  have parts: "split CHR ''.'' (body @ CHR ''.'' # sig) = [body, sig]"
    unfolding body_def sig_def by (rule split_signState)
  have b: "body \<noteq> []" using nonempty by (simp add: body_def b64url_encode_Nil_iff)
  have s: "sig \<noteq> []" using digest by (simp add: sig_def body_def b64url_encode_Nil_iff)
  have dec: "b64url_decode body = JSON_stringify L (payload_object p)"
    by (simp add: body_def b64url_decode_encode)
  show ?thesis
    unfolding verifyState_def st
    using b s
    by (simp add: missing_def parts element_def Let_def timingSafeEqual_def sig_def [symmetric]
        dec roundtrip get_prop_payload_exp now_gt_int)
qed

text \<open>A state of two non-empty parts: the signature is compared before anything else.\<close>

lemma verifyState_two_parts:
  assumes "body \<noteq> []" "sig \<noteq> []" "CHR ''.'' \<notin> set body" "CHR ''.'' \<notin> set sig"
  shows "verifyState L env now (Some (body @ CHR ''.'' # sig)) =
     (case timingSafeEqual sig (b64url_encode (hmac_sha256 L (SESSION_SECRET env) body)) of
        Inl e \<Rightarrow> Inl e
      | Inr same \<Rightarrow>
          if \<not> same then Inr JNull
          else (case JSON_parse L (b64url_decode body) of
                  Inl e \<Rightarrow> Inl e
                | Inr payload \<Rightarrow>
                    (case get_prop payload ''exp'' of
                       Inl e \<Rightarrow> Inl e
                     | Inr exp_v \<Rightarrow> if now_gt L now exp_v then Inr JNull else Inr payload)))"
proof -
  have parts: "split CHR ''.'' (body @ CHR ''.'' # sig) = [body, sig]"
    using split_at_sep [OF assms(3), of sig] split_no_sep [OF assms(4)] by simp
  show ?thesis
    unfolding verifyState_def using assms(1,2)
    by (simp add: missing_def parts element_def Let_def split: sum.splits)
qed

lemma verifyState_length_mismatch:
  assumes "body \<noteq> []" "sig \<noteq> []" "CHR ''.'' \<notin> set body" "CHR ''.'' \<notin> set sig"
    and "length (hmac_sha256 L (SESSION_SECRET env) body) = 32"
    and "length sig \<noteq> 43"
  shows "verifyState L env now (Some (body @ CHR ''.'' # sig)) =
           Inl (RangeError ''Input buffers must have the same byte length'')"
  unfolding verifyState_two_parts [OF assms(1-4)]
  using assms(5,6) by (simp add: timingSafeEqual_def length_b64url_encode)

lemma verifyState_wrong_signature:
  assumes "body \<noteq> []" "sig \<noteq> []" "CHR ''.'' \<notin> set body" "CHR ''.'' \<notin> set sig"
    and "length (hmac_sha256 L (SESSION_SECRET env) body) = 32"
    and "length sig = 43"
    and "sig \<noteq> b64url_encode (hmac_sha256 L (SESSION_SECRET env) body)"
  shows "verifyState L env now (Some (body @ CHR ''.'' # sig)) = Inr JNull"
  unfolding verifyState_two_parts [OF assms(1-4)]
  using assms(5,6,7) by (simp add: timingSafeEqual_def length_b64url_encode)

lemma stub_roundtrip:
  "JSON_parse stub_lib (JSON_stringify stub_lib (payload_object sample_payload))
     = Inr (payload_object sample_payload)"
  "JSON_stringify stub_lib (payload_object sample_payload) = sample_payload_text"
  by (simp_all add: stub_lib_def stub_documents_def)

lemma sample_payload_text_nonempty: "sample_payload_text \<noteq> []"
  by (simp add: sample_payload_text_def)

subsection \<open>GET /auth/callback\<close>

text \<open>
  When \<^verbatim>\<open>verifyState\<close> returns, the handler answers 400 exactly if the code is
  missing or empty or the returned value is falsy; a 400 comes with no upstream request
  and no cookie.
\<close>

lemma auth_callback_400_iff:
  assumes "verifyState L env now (query req ''state'') = Inr v"
  shows "(\<exists>r. fst (auth_callback L env now net req fx) = Inr r \<and> res_status r = 400)
           \<longleftrightarrow> missing (query req ''code'') \<or> \<not> truthy v"
  unfolding auth_callback_def Let_def assms fetch_def state_mismatch_def
  by (auto split: sum.splits prod.splits)

lemma auth_callback_400_no_effects:
  assumes "fst (auth_callback L env now net req fx) = Inr r" "res_status r = 400"
  shows "r = state_mismatch \<and> snd (auth_callback L env now net req fx) = fx"
  using assms unfolding auth_callback_def Let_def fetch_def
  by (auto split: sum.splits prod.splits if_splits)

subsection \<open>sfetch\<close>

lemma token_url_not_api: "SPOTIFY_TOKEN \<noteq> SPOTIFY_API @ path"
  by (simp add: SPOTIFY_TOKEN_def SPOTIFY_API_def)

lemma sent_store_tokens [simp]: "sent (store_tokens a r fx) = sent fx"
  by (simp add: store_tokens_def res_cookie_def Let_def)

lemma refresh_sent:
  "sent (snd (refreshAccessToken L env net req fx)) = sent fx
   \<or> sent (snd (refreshAccessToken L env net req fx)) =
        sent fx @ [refresh_request L env (cookie req ''spotify_refresh_token'')]"
  unfolding refreshAccessToken_def Let_def fetch_def
  by (auto split: sum.splits prod.splits)

lemma url_resource [simp]: "url (resource_request L path a) = SPOTIFY_API @ path"
  by (simp add: resource_request_def)

lemma url_refresh [simp]: "url (refresh_request L env t) = SPOTIFY_TOKEN"
  by (simp add: refresh_request_def)


text \<open>The five ways \<^verbatim>\<open>sfetch\<close> ends.\<close>

lemma sfetch_first_rejected:
  assumes "net (sent fx) (resource_request L path (cookie req ''spotify_access_token'')) = Inl e"
  shows "sfetch L env net req path fx =
     (Inl e, fx\<lparr>sent := sent fx @ [resource_request L path (cookie req ''spotify_access_token'')]\<rparr>)"
  using assms by (simp add: sfetch_def fetch_def Let_def)

lemma sfetch_no_retry:
  assumes "net (sent fx) (resource_request L path (cookie req ''spotify_access_token'')) = Inr resp"
    and "up_status resp \<noteq> 401"
  shows "sfetch L env net req path fx =
     (json_or_throw L resp,
      fx\<lparr>sent := sent fx @ [resource_request L path (cookie req ''spotify_access_token'')]\<rparr>)"
  using assms by (simp add: sfetch_def fetch_def Let_def)

lemma sfetch_refresh_raises:
  assumes "net (sent fx) (resource_request L path (cookie req ''spotify_access_token'')) = Inr resp"
    and "up_status resp = 401"
    and "refreshAccessToken L env net req
           (fx\<lparr>sent := sent fx @ [resource_request L path (cookie req ''spotify_access_token'')]\<rparr>)
         = (Inl e, fx2)"
  shows "sfetch L env net req path fx = (Inl e, fx2)"
  using assms by (simp add: sfetch_def fetch_def Let_def)

lemma sfetch_refresh_failed:
  assumes "net (sent fx) (resource_request L path (cookie req ''spotify_access_token'')) = Inr resp"
    and "up_status resp = 401"
    and "refreshAccessToken L env net req
           (fx\<lparr>sent := sent fx @ [resource_request L path (cookie req ''spotify_access_token'')]\<rparr>)
         = (Inr token, fx2)"
    and "\<not> truthy token"
  shows "sfetch L env net req path fx = (Inl (Error ''Unauthorized and refresh failed''), fx2)"
  using assms by (simp add: sfetch_def fetch_def Let_def js_or_def)

lemma sfetch_retry:
  assumes "net (sent fx) (resource_request L path (cookie req ''spotify_access_token'')) = Inr resp"
    and "up_status resp = 401"
    and "refreshAccessToken L env net req
           (fx\<lparr>sent := sent fx @ [resource_request L path (cookie req ''spotify_access_token'')]\<rparr>)
         = (Inr token, fx2)"
    and "truthy token"
  shows "sfetch L env net req path fx =
     (case net (sent fx2) (resource_request L path token) of
        Inl e \<Rightarrow> Inl e
      | Inr resp2 \<Rightarrow> json_or_throw L resp2,
      fx2\<lparr>sent := sent fx2 @ [resource_request L path token]\<rparr>)"
  using assms by (simp add: sfetch_def fetch_def Let_def js_or_def split: sum.splits)












lemma sfetch_always_forbidden:
  "sfetch stub_lib sample_env always_forbidden bare_request ''/me'' no_effects =
     (Inl (Error ''Forbidden''),
      \<lparr>sent = [resource_request stub_lib ''/me'' JUndefined], set_cookies = []\<rparr>)"
  by (simp add: sfetch_def cookie_def bare_request_def fetch_def no_effects_def always_forbidden_def
      json_or_throw_def ok_def)

subsection \<open>Error responses\<close>




subsection \<open>Loops that may throw\<close>

lemma map_throw_Inr:
  "(\<And>x. x \<in> set xs \<Longrightarrow> f x = Inr (g x)) \<Longrightarrow> map_throw f xs = Inr (map g xs)"
  by (induction xs) simp_all

lemma map_throw_Inr_D:
  "map_throw f xs = Inr ys \<Longrightarrow> list_all2 (\<lambda>x y. f x = Inr y) xs ys"
  by (induction xs arbitrary: ys) (auto split: sum.splits)

lemma map_throw_Inl:
  "x \<in> set xs \<Longrightarrow> f x = Inl e \<Longrightarrow> \<exists>e'. map_throw f xs = Inl e'"
  by (induction xs) (auto split: sum.splits)

lemma get_prop_defined: "\<not> nullish v \<Longrightarrow> get_prop v k = Inr (get_opt v k)"
  by (cases v) (simp_all add: nullish_def get_opt_def)

lemma get_prop_nullish: "nullish v \<Longrightarrow> get_prop v k = Inl (cannot_read v k)"
  by (auto simp: nullish_def)

lemma truthy_not_nullish: "truthy v \<Longrightarrow> \<not> nullish v"
  by (auto simp: nullish_def)

subsection \<open>Object literals\<close>

lemma project_defined:
  "\<not> nullish v \<Longrightarrow> project v keys = Inr (JObj (map (\<lambda>k. (k, get_opt v k)) keys))"
proof -
  assume d: "\<not> nullish v"
  have "map_throw (\<lambda>k. case get_prop v k of Inl e \<Rightarrow> Inl e | Inr x \<Rightarrow> Inr (k, x)) keys
        = Inr (map (\<lambda>k. (k, get_opt v k)) keys)"
    by (rule map_throw_Inr) (simp add: get_prop_defined [OF d])
  then show ?thesis by (simp add: project_def)
qed

lemma project_nullish:
  "nullish v \<Longrightarrow> project v (k # keys) = Inl (cannot_read v k)"
  by (simp add: project_def get_prop_nullish)

lemma map_project_Inr_iff:
  "(\<exists>ys. map_throw (\<lambda>t. project t (k # keys)) xs = Inr ys) \<longleftrightarrow> list_all (\<lambda>x. \<not> nullish x) xs"
proof
  assume "\<exists>ys. map_throw (\<lambda>t. project t (k # keys)) xs = Inr ys"
  then obtain ys where "map_throw (\<lambda>t. project t (k # keys)) xs = Inr ys" ..
  from map_throw_Inr_D [OF this] have "\<forall>x \<in> set xs. \<exists>y. project x (k # keys) = Inr y"
    by (auto simp: list_all2_conv_all_nth in_set_conv_nth)
  then show "list_all (\<lambda>x. \<not> nullish x) xs"
    by (auto simp: list_all_iff project_nullish)
next
  assume "list_all (\<lambda>x. \<not> nullish x) xs"
  then have "map_throw (\<lambda>t. project t (k # keys)) xs
             = Inr (map (\<lambda>t. JObj (map (\<lambda>k. (k, get_opt t k)) (k # keys))) xs)"
    by (intro map_throw_Inr) (simp add: list_all_iff project_defined)
  then show "\<exists>ys. map_throw (\<lambda>t. project t (k # keys)) xs = Inr ys" by blast
qed

lemma map_project_result:
  "map_throw (\<lambda>t. project t keys) xs = Inr ys \<Longrightarrow> keys \<noteq> [] \<Longrightarrow>
   ys = map (\<lambda>t. JObj (map (\<lambda>k. (k, get_opt t k)) keys)) xs"
proof -
  assume a: "map_throw (\<lambda>t. project t keys) xs = Inr ys" and k: "keys \<noteq> []"
  then obtain k0 ks where keys: "keys = k0 # ks" by (cases keys) auto
  from a have "list_all (\<lambda>x. \<not> nullish x) xs"
    using map_project_Inr_iff [of k0 ks xs] keys by blast
  then have "map_throw (\<lambda>t. project t keys) xs
             = Inr (map (\<lambda>t. JObj (map (\<lambda>k. (k, get_opt t k)) keys)) xs)"
    by (intro map_throw_Inr) (simp add: list_all_iff project_defined)
  with a show ?thesis by simp
qed


lemma map_throw_replicate:
  "f x = Inr y \<Longrightarrow> map_throw f (replicate n x) = Inr (replicate n y)"
  by (induction n) simp_all

subsection \<open>compactSnapshot\<close>

lemma profile_part:
  "\<exists>p. (if truthy (get_opt s ''profile'')
            then project (get_opt s ''profile'') [''id'', ''displayName'', ''country'']
            else Inr (get_opt s ''profile'')) = Inr p"
  by (simp add: project_defined truthy_not_nullish)

lemma compactSnapshot_shape:
  assumes "compactSnapshot s = Inr r"
  shows "\<exists>p. r = JObj
     [(''generatedAt'', get_opt s ''generatedAt''),
      (''profile'', p),
      (''topTracks'', JArr (map (\<lambda>t. JObj (map (\<lambda>k. (k, get_opt t k)) track_keys))
                             (topN (js_or (get_opt s ''topTracks'') (JArr [])) 25))),
      (''topArtists'', JArr (map (\<lambda>t. JObj (map (\<lambda>k. (k, get_opt t k)) artist_keys))
                             (topN (js_or (get_opt s ''topArtists'') (JArr [])) 20))),
      (''recent'', JArr (map (\<lambda>t. JObj (map (\<lambda>k. (k, get_opt t k)) recent_keys))
                             (topN (js_or (get_opt s ''recent'') (JArr [])) 20)))]"
proof -
  obtain p where p: "(if truthy (get_opt s ''profile'')
            then project (get_opt s ''profile'') [''id'', ''displayName'', ''country'']
            else Inr (get_opt s ''profile'')) = Inr p"
    using profile_part by blast
  from assms obtain tt ta rc where
    tt: "map_throw (\<lambda>t. project t track_keys) (topN (js_or (get_opt s ''topTracks'') (JArr [])) 25) = Inr tt"
    and ta: "map_throw (\<lambda>t. project t artist_keys) (topN (js_or (get_opt s ''topArtists'') (JArr [])) 20) = Inr ta"
    and rc: "map_throw (\<lambda>t. project t recent_keys) (topN (js_or (get_opt s ''recent'') (JArr [])) 20) = Inr rc"
    and r: "r = JObj [(''generatedAt'', get_opt s ''generatedAt''), (''profile'', p),
                      (''topTracks'', JArr tt), (''topArtists'', JArr ta), (''recent'', JArr rc)]"
    unfolding compactSnapshot_def p by (auto split: sum.splits)
  have k: "track_keys \<noteq> []" "artist_keys \<noteq> []" "recent_keys \<noteq> []"
    by (simp_all add: track_keys_def artist_keys_def recent_keys_def)
  show ?thesis
    unfolding r
    using map_project_result [OF tt k(1)] map_project_result [OF ta k(2)] map_project_result [OF rc k(3)]
    by simp
qed

lemma compactSnapshot_returns_iff:
  "(\<exists>r. compactSnapshot s = Inr r) \<longleftrightarrow> entries_present s"
proof -
  obtain p where p: "(if truthy (get_opt s ''profile'')
            then project (get_opt s ''profile'') [''id'', ''displayName'', ''country'']
            else Inr (get_opt s ''profile'')) = Inr p"
    using profile_part by blast
  have "(\<exists>r. compactSnapshot s = Inr r) \<longleftrightarrow>
        (\<exists>tt. map_throw (\<lambda>t. project t track_keys) (topN (js_or (get_opt s ''topTracks'') (JArr [])) 25) = Inr tt)
        \<and> (\<exists>ta. map_throw (\<lambda>t. project t artist_keys) (topN (js_or (get_opt s ''topArtists'') (JArr [])) 20) = Inr ta)
        \<and> (\<exists>rc. map_throw (\<lambda>t. project t recent_keys) (topN (js_or (get_opt s ''recent'') (JArr [])) 20) = Inr rc)"
    unfolding compactSnapshot_def p by (auto split: sum.splits)
  then show ?thesis
    unfolding entries_present_def track_keys_def artist_keys_def recent_keys_def map_project_Inr_iff .
qed

lemma topN_not_array: "(\<forall>xs. v \<noteq> JArr xs) \<Longrightarrow> topN (js_or v (JArr [])) n = []"
  by (cases v) (simp_all add: topN_def js_or_def)

lemma chat_post_sends_compact:
  "sent (snd (chat_post L cenv net req fx)) = sent fx
   \<or> (\<exists>slim. compactSnapshot (get_opt (js_or (req_body req) (JObj [])) ''snapshot'') = Inr slim
        \<and> sent (snd (chat_post L cenv net req fx)) =
            sent fx @ [chat_request L cenv slim (get_opt (js_or (req_body req) (JObj [])) ''question'')])"
  unfolding chat_post_def chat_try_def fetch_def Let_def
  by (auto split: sum.splits prod.splits if_splits)

lemma compactSnapshot_sample: "compactSnapshot sample_snapshot = Inr sample_compact"
proof -
  have t: "project sample_track track_keys =
      Inr (JObj [(''id'', JStr ''t1''), (''name'', JStr ''Song''),
                 (''uri'', JStr ''spotify:track:t1''), (''artists'', JArr [JStr ''Band''])])"
    by (simp add: project_def sample_track_def track_keys_def)
  have g: "get_opt sample_snapshot ''generatedAt'' = JStr ''2025-01-01''"
    "get_opt sample_snapshot ''profile'' = JObj [(''id'', JStr ''u1''), (''email'', JStr ''u1@example.org'')]"
    "get_opt sample_snapshot ''topTracks'' = JArr (replicate 30 sample_track)"
    "get_opt sample_snapshot ''topArtists'' = JStr ''none''"
    "get_opt sample_snapshot ''recent'' = JUndefined"
    by (simp_all add: sample_snapshot_def get_opt_def)
  have p: "project (JObj [(''id'', JStr ''u1''), (''email'', JStr ''u1@example.org'')])
             [''id'', ''displayName'', ''country'']
           = Inr (JObj [(''id'', JStr ''u1''), (''displayName'', JUndefined), (''country'', JUndefined)])"
    by (simp add: project_def)
  have m: "map_throw (\<lambda>t. project t track_keys) (replicate 25 sample_track) =
      Inr (replicate 25 (JObj [(''id'', JStr ''t1''), (''name'', JStr ''Song''),
                 (''uri'', JStr ''spotify:track:t1''), (''artists'', JArr [JStr ''Band''])]))"
    by (rule map_throw_replicate) (rule t)
  show ?thesis
    unfolding compactSnapshot_def g
    by (simp add: js_or_def topN_def p m sample_compact_def)
qed

subsection \<open>GET /enriched/top-tracks\<close>

lemma set_add_no_repeat:
  "sorted_wrt (\<lambda>a b. \<not> same_value_zero a b) seen \<Longrightarrow>
   sorted_wrt (\<lambda>a b. \<not> same_value_zero a b) (set_add seen v)"
  by (auto simp: set_add_def sorted_wrt_append list_ex_iff)

lemma foldl_set_add_no_repeat:
  "sorted_wrt (\<lambda>a b. \<not> same_value_zero a b) seen \<Longrightarrow>
   sorted_wrt (\<lambda>a b. \<not> same_value_zero a b) (foldl set_add seen xs)"
  by (induction xs arbitrary: seen) (simp_all add: set_add_no_repeat)

lemma set_set_add: "set (set_add seen v) = insert v (set seen)"
  by (auto simp: set_add_def list_ex_iff same_value_zero_def)

lemma set_foldl_set_add: "set (foldl set_add seen xs) = set seen \<union> set xs"
  by (induction xs arbitrary: seen) (auto simp: set_set_add)

lemma unique_no_repeat:
  "i < j \<Longrightarrow> j < length (unique xs) \<Longrightarrow> \<not> same_value_zero (unique xs ! i) (unique xs ! j)"
  using foldl_set_add_no_repeat [of "[]" xs]
  by (simp add: unique_def sorted_wrt_iff_nth_less)

lemma set_unique: "set (unique xs) = set xs"
  by (simp add: unique_def set_foldl_set_add)

lemma primitive_distinct_unique:
  "\<forall>x \<in> set xs. primitive x \<Longrightarrow> distinct (unique xs)"
proof -
  assume p: "\<forall>x \<in> set xs. primitive x"
  have "\<And>i j. i < j \<Longrightarrow> j < length (unique xs) \<Longrightarrow> unique xs ! i \<noteq> unique xs ! j"
  proof -
    fix i j assume ij: "i < j" "j < length (unique xs)"
    then have "unique xs ! i \<in> set xs" using set_unique [of xs] nth_mem [of i "unique xs"] by auto
    with p have "primitive (unique xs ! i)" by blast
    with unique_no_repeat [OF ij] show "unique xs ! i \<noteq> unique xs ! j"
      by (simp add: same_value_zero_def)
  qed
  then show ?thesis
    unfolding distinct_conv_nth by (metis nat_neq_iff)
qed

lemma concat_batches_from: "concat (batches_from xs i) = drop i xs"
proof (induction xs i rule: batches_from.induct)
  case (1 xs i)
  show ?case
  proof (cases "i < length xs")
    case True
    have d: "take 50 (drop i xs) @ drop (i + 50) xs = drop i xs"
      using append_take_drop_id [of 50 "drop i xs"] by (simp add: add.commute)
    from True 1 have "concat (batches_from xs (i + 50)) = drop (i + 50) xs" by simp
    with True d show ?thesis
      by (subst batches_from.simps) (simp add: slice50_def)
  next
    case False
    then show ?thesis by (subst batches_from.simps) simp
  qed
qed

lemma batches_from_bounds: "b \<in> set (batches_from xs i) \<Longrightarrow> b \<noteq> [] \<and> length b \<le> 50"
proof (induction xs i rule: batches_from.induct)
  case (1 xs i)
  show ?case
  proof (cases "i < length xs")
    case True
    with 1 show ?thesis
      by (subst (asm) (2) batches_from.simps) (auto simp: slice50_def)
  next
    case False
    with 1(2) show ?thesis by (subst (asm) batches_from.simps) simp
  qed
qed

lemma artists_path_written:
  "artists_path L b =
     ''/artists?ids=''
       @ join '','' (map (\<lambda>v. if v = JUndefined \<or> v = JNull then [] else ToString L v) b)"
  by (simp add: artists_path_def join_values_def)

lemma fetch_batches_each:
  "fetch_batches L env net req artistIds i batched fx =
     sfetch_each L env net req (batches_from artistIds i) batched fx"
proof (induction L env net req artistIds i batched fx rule: fetch_batches.induct)
  case (1 L env net req artistIds i batched fx)
  show ?case
  proof (cases "i < length artistIds")
    case True
    have b: "batches_from artistIds i = slice50 artistIds i # batches_from artistIds (i + 50)"
      using True by (subst batches_from.simps) simp
    show ?thesis
      unfolding b sfetch_each.simps artists_path_written [symmetric]
      apply (subst fetch_batches.simps)
      using True 1
      apply (auto split: prod.splits sum.splits)
      done
  next
    case False
    then show ?thesis
      by (subst fetch_batches.simps, subst batches_from.simps) simp
  qed
qed

lemma get_prop_Inr_get_opt: "get_prop v k = Inr x \<Longrightarrow> x = get_opt v k"
  by (simp add: get_opt_def)

lemma genre_entries_result:
  assumes "genre_entries batched = Inr entries"
  shows "entries = map (\<lambda>a. (get_opt a ''id'', js_or (get_opt a ''genres'') (JArr []))) batched"
proof -
  from map_throw_Inr_D [OF assms [unfolded genre_entries_def]]
  have "list_all2 (\<lambda>a y. y = (get_opt a ''id'', js_or (get_opt a ''genres'') (JArr []))) batched entries"
    by (rule list_all2_mono) (auto split: sum.splits dest: get_prop_Inr_get_opt)
  then show ?thesis
    by (induction rule: list_all2_induct) simp_all
qed

lemma Map_get_map:
  "Map_get (map (\<lambda>a. (kf a, vf a)) batched) k =
     (case filter (\<lambda>a. same_value_zero (kf a) k) batched of
        [] \<Rightarrow> JUndefined
      | b # bs \<Rightarrow> vf (last (b # bs)))"
proof -
  have f: "filter (\<lambda>(k', v). same_value_zero k' k) (map (\<lambda>a. (kf a, vf a)) batched)
        = map (\<lambda>a. (kf a, vf a)) (filter (\<lambda>a. same_value_zero (kf a) k) batched)"
    by (simp add: filter_map o_def)
  show ?thesis
    unfolding Map_get_def f
    by (cases "filter (\<lambda>a. same_value_zero (kf a) k) batched") (simp_all add: last_map)
qed

lemma js_or_idem: "js_or (js_or g (JArr [])) (JArr []) = js_or g (JArr [])"
  by (simp add: js_or_def)

lemma enrich_artist_result:
  assumes "genre_entries batched = Inr genresByArtist"
    and "enrich_artist genresByArtist a = Inr out"
  shows "out = JObj [(''id'', get_opt a ''id''), (''name'', get_opt a ''name''),
                     (''genres'', found_genres batched (get_opt a ''id''))]"
proof -
  have g: "js_or (Map_get genresByArtist k) (JArr []) = found_genres batched k" for k
    unfolding genre_entries_result [OF assms(1)] Map_get_map found_genres_def
    by (cases "filter (\<lambda>b. same_value_zero (get_opt b ''id'') k) batched")
       (simp_all add: js_or_def)
  from assms(2) show ?thesis
    unfolding enrich_artist_def g
    by (auto split: sum.splits dest: get_prop_Inr_get_opt)
qed

lemma get_opt_JObj: "get_opt (JObj kvs) k = (case map_of kvs k of Some v \<Rightarrow> v | None \<Rightarrow> JUndefined)"
  by (simp add: get_opt_def)

lemma enrich_track_artists:
  assumes "enrich_track genresByArtist t = Inr track"
  shows "\<exists>as outs. array_of (js_or (get_opt t ''artists'') (JArr [])) ''(t.artists || [])'' ''map'' = Inr as
           \<and> map_throw (enrich_artist genresByArtist) as = Inr outs
           \<and> get_opt track ''artists'' = JArr outs"
proof -
  from assms obtain tid where "get_prop t ''id'' = Inr tid"
    unfolding enrich_track_def by (cases "get_prop t ''id''") simp_all
  note a = assms [unfolded enrich_track_def this Let_def, simplified]
  from a obtain as where as: "array_of (js_or (get_opt t ''artists'') (JArr [])) ''(t.artists || [])'' ''map'' = Inr as"
    by (cases "array_of (js_or (get_opt t ''artists'') (JArr [])) ''(t.artists || [])'' ''map''") simp_all
  note b = a [unfolded as, simplified]
  from b obtain outs where outs: "map_throw (enrich_artist genresByArtist) as = Inr outs"
    by (cases "map_throw (enrich_artist genresByArtist) as") simp_all
  from b [unfolded outs, simplified] have "get_opt track ''artists'' = JArr outs"
    by (auto simp: get_opt_JObj)
  with as outs show ?thesis by blast
qed

lemma array_of_Inr: "array_of v callee m = Inr xs \<Longrightarrow> v = JArr xs"
  by (cases v) (simp_all add: array_of_def)

lemma gather_artist_ids_result:
  assumes "gather_artist_ids top_r = Inr artistIds"
  shows "\<exists>ts idss. get_prop top_r ''items'' = Inr (JArr ts)
           \<and> map_throw artist_ids_of ts = Inr idss
           \<and> artistIds = unique (concat idss)"
proof -
  from assms obtain items where i: "get_prop top_r ''items'' = Inr items"
    unfolding gather_artist_ids_def by (cases "get_prop top_r ''items''") simp_all
  note a = assms [unfolded gather_artist_ids_def i, simplified]
  from a obtain ts where ts: "array_of items ''top.items'' ''flatMap'' = Inr ts"
    by (cases "array_of items ''top.items'' ''flatMap''") simp_all
  note b = a [unfolded ts, simplified]
  from b obtain idss where idss: "map_throw artist_ids_of ts = Inr idss"
    by (cases "map_throw artist_ids_of ts") simp_all
  from b [unfolded idss, simplified] have "artistIds = unique (concat idss)" by simp
  with i array_of_Inr [OF ts] idss show ?thesis by blast
qed


lemma gather_sample: "gather_artist_ids sample_top = Inr [JStr ''a1'', JStr ''a2'']"
  by (simp add: gather_artist_ids_def sample_top_def array_of_def artist_ids_of_def js_coalesce_def
      nullish_def unique_def set_add_def same_value_zero_def)

lemma genre_entries_sample: "genre_entries sample_batched = Inr sample_entries"
  by (simp add: genre_entries_def sample_batched_def sample_entries_def get_opt_def js_or_def)

lemma batches_from_120:
  "batches_from (replicate 120 x) 0 = [replicate 50 x, replicate 50 x, replicate 20 x]"
  by (simp add: batches_from.simps slice50_def)

subsection \<open>The requests of one \<^verbatim>\<open>sfetch\<close> call\<close>





lemma sfetch_sent:
  assumes "sfetch L env net req path fx = (out, fx')"
  shows "\<exists>extra k. sent fx' = sent fx @ extra \<and> (k = (1::nat) \<or> k = 2)
           \<and> map url (filter (\<lambda>r. url r \<noteq> SPOTIFY_TOKEN) extra) = replicate k (SPOTIFY_API @ path)"
proof -
  let ?rq0 = "resource_request L path (cookie req ''spotify_access_token'')"
  let ?rt = "refresh_request L env (cookie req ''spotify_refresh_token'')"
  let ?fx1 = "fx\<lparr>sent := sent fx @ [?rq0]\<rparr>"
  have nt: "SPOTIFY_API @ path \<noteq> SPOTIFY_TOKEN" using token_url_not_api [of path] by simp
  have wrap: "\<And>extra k. sent fx' = sent fx @ extra \<Longrightarrow>
      map url (filter (\<lambda>r. url r \<noteq> SPOTIFY_TOKEN) extra) = replicate k (SPOTIFY_API @ path) \<Longrightarrow>
      k = (1::nat) \<or> k = 2 \<Longrightarrow> ?thesis"
    by blast
  have one: "sent fx' = sent fx @ [?rq0] \<Longrightarrow> ?thesis"
    by (rule wrap [where k = 1 and extra = "[?rq0]"]) (use nt in simp_all)
  have one_t: "sent fx' = sent fx @ [?rq0, ?rt] \<Longrightarrow> ?thesis"
    by (rule wrap [where k = 1 and extra = "[?rq0, ?rt]"]) (use nt in simp_all)
  have two: "\<And>token. sent fx' = sent fx @ [?rq0, resource_request L path token] \<Longrightarrow> ?thesis"
    subgoal for token
      by (rule wrap [where k = 2 and extra = "[?rq0, resource_request L path token]"])
         (use nt in \<open>simp_all add: numeral_2_eq_2\<close>)
    done
  have two_t: "\<And>token. sent fx' = sent fx @ [?rq0, ?rt, resource_request L path token] \<Longrightarrow> ?thesis"
    subgoal for token
      by (rule wrap [where k = 2 and extra = "[?rq0, ?rt, resource_request L path token]"])
         (use nt in \<open>simp_all add: numeral_2_eq_2\<close>)
    done
  show ?thesis
  proof (cases "net (sent fx) ?rq0")
    case (Inl e)
    have "sfetch L env net req path fx = (Inl e, ?fx1)" using Inl by (rule sfetch_first_rejected)
    with assms have "fx' = ?fx1" by simp
    then show ?thesis using one by simp
  next
    case (Inr resp)
    show ?thesis
    proof (cases "up_status resp = 401")
      case False
      have "sfetch L env net req path fx = (json_or_throw L resp, ?fx1)"
        using Inr False by (rule sfetch_no_retry)
      with assms have "fx' = ?fx1" by simp
      then show ?thesis using one by simp
    next
      case True
      obtain r fx2 where rf: "refreshAccessToken L env net req ?fx1 = (r, fx2)"
        by (cases "refreshAccessToken L env net req ?fx1")
      from refresh_sent [of L env net req ?fx1] rf
      have s2: "sent fx2 = sent fx @ [?rq0] \<or> sent fx2 = sent fx @ [?rq0, ?rt]"
        by auto
      have mid: "sent fx' = sent fx2 \<Longrightarrow> ?thesis"
        using s2 one one_t by auto
      show ?thesis
      proof (cases r)
        case (Inl e)
        have "sfetch L env net req path fx = (Inl e, fx2)"
          using Inr True rf [unfolded Inl] by (rule sfetch_refresh_raises)
        with assms have "fx' = fx2" by simp
        with mid show ?thesis by simp
      next
        case tok: (Inr token)
        show ?thesis
        proof (cases "truthy token")
          case False
          have "sfetch L env net req path fx = (Inl (Error ''Unauthorized and refresh failed''), fx2)"
            using Inr True rf [unfolded tok] False by (rule sfetch_refresh_failed)
          with assms have "fx' = fx2" by simp
          with mid show ?thesis by simp
        next
          case t: True
          have "sfetch L env net req path fx =
                  (case net (sent fx2) (resource_request L path token) of
                     Inl e \<Rightarrow> Inl e
                   | Inr resp2 \<Rightarrow> json_or_throw L resp2,
                   fx2\<lparr>sent := sent fx2 @ [resource_request L path token]\<rparr>)"
            using Inr True rf [unfolded tok] t by (rule sfetch_retry)
          with assms have f: "sent fx' = sent fx2 @ [resource_request L path token]" by auto
          from s2 show ?thesis
          proof
            assume "sent fx2 = sent fx @ [?rq0]"
            with f have "sent fx' = sent fx @ [?rq0, resource_request L path token]" by simp
            then show ?thesis by (rule two)
          next
            assume "sent fx2 = sent fx @ [?rq0, ?rt]"
            with f have "sent fx' = sent fx @ [?rq0, ?rt, resource_request L path token]" by simp
            then show ?thesis by (rule two_t)
          qed
        qed
      qed
    qed
  qed
qed


subsection \<open>GET /enriched/top-tracks, end to end\<close>


lemma sfetch_each_sent:
  "sfetch_each L env net req bs acc fx = (Inr batched, fx') \<Longrightarrow>
   \<exists>extra ks. sent fx' = sent fx @ extra \<and> length ks = length bs
     \<and> (\<forall>k \<in> set ks. k = (1::nat) \<or> k = 2)
     \<and> map url (filter (\<lambda>r. url r \<noteq> SPOTIFY_TOKEN) extra)
       = concat (map2 (\<lambda>b k. replicate k
            (SPOTIFY_API @ ''/artists?ids=''
               @ join '','' (map (\<lambda>v. if v = JUndefined \<or> v = JNull then [] else ToString L v) b)))
           bs ks)"
proof (induction bs arbitrary: acc fx)
  case Nil
  then have "sent fx' = sent fx @ []" by simp
  then show ?case by (intro exI [of _ "[]"]) simp
next
  case (Cons b bs)
  let ?p = "''/artists?ids=''
               @ join '','' (map (\<lambda>v. if v = JUndefined \<or> v = JNull then [] else ToString L v) b)"
  obtain r fx1 where s: "sfetch L env net req ?p fx = (r, fx1)"
    by (cases "sfetch L env net req ?p fx")
  note a = Cons.prems [unfolded sfetch_each.simps s, simplified]
  from a obtain resp where r: "r = Inr resp" by (cases r) simp_all
  note a1 = a [unfolded r, simplified]
  from a1 obtain arts where arts: "get_prop resp ''artists'' = Inr arts"
    by (cases "get_prop resp ''artists''") simp_all
  note a2 = a1 [unfolded arts, simplified]
  from a2 obtain xs where xs: "spread (js_or arts (JArr [])) = Inr xs"
    by (cases "spread (js_or arts (JArr []))") simp_all
  from a2 [unfolded xs, simplified]
  have rest: "sfetch_each L env net req bs (acc @ xs) fx1 = (Inr batched, fx')" .
  from sfetch_sent [OF s] obtain extra1 k1 where
    e1: "sent fx1 = sent fx @ extra1" "k1 = 1 \<or> k1 = 2"
        "map url (filter (\<lambda>r. url r \<noteq> SPOTIFY_TOKEN) extra1) = replicate k1 (SPOTIFY_API @ ?p)"
    by blast
  from Cons.IH [OF rest] obtain extra2 ks2 where
    e2: "sent fx' = sent fx1 @ extra2" "length ks2 = length bs" "\<forall>k \<in> set ks2. k = 1 \<or> k = 2"
        "map url (filter (\<lambda>r. url r \<noteq> SPOTIFY_TOKEN) extra2)
           = concat (map2 (\<lambda>b k. replicate k
            (SPOTIFY_API @ ''/artists?ids=''
               @ join '','' (map (\<lambda>v. if v = JUndefined \<or> v = JNull then [] else ToString L v) b)))
           bs ks2)"
    by blast
  show ?case
    apply (rule exI [of _ "extra1 @ extra2"])
    apply (rule exI [of _ "k1 # ks2"])
    using e1 e2 apply simp
    done
qed

lemma map_throw_Inr_map:
  assumes "map_throw f xs = Inr ys" and "\<And>x y. f x = Inr y \<Longrightarrow> y = g x"
  shows "ys = map g xs"
proof -
  from map_throw_Inr_D [OF assms(1)] have "list_all2 (\<lambda>x y. y = g x) xs ys"
    by (rule list_all2_mono) (simp add: assms(2))
  then show ?thesis by (induction rule: list_all2_induct) simp_all
qed

lemma enrich_track_result:
  assumes g: "genre_entries batched = Inr genresByArtist"
    and t: "enrich_track genresByArtist t = Inr track"
  shows "track =
     JObj [(''id'', get_opt t ''id''), (''name'', get_opt t ''name''), (''uri'', get_opt t ''uri''),
           (''popularity'', get_opt t ''popularity''), (''duration_ms'', get_opt t ''duration_ms''),
           (''explicit'', get_opt t ''explicit''),
           (''album'', JObj [(''id'', get_opt (get_opt t ''album'') ''id''),
                             (''name'', get_opt (get_opt t ''album'') ''name''),
                             (''release_date'', get_opt (get_opt t ''album'') ''release_date'')]),
           (''artists'',
              JArr (map (\<lambda>a. JObj [(''id'', get_opt a ''id''), (''name'', get_opt a ''name''),
                                    (''genres'', found_genres batched (get_opt a ''id''))])
                     (case get_opt t ''artists'' of JArr as \<Rightarrow> as | _ \<Rightarrow> [])))]"
proof -
  from t obtain tid where tid: "get_prop t ''id'' = Inr tid"
    unfolding enrich_track_def by (cases "get_prop t ''id''") simp_all
  note a = t [unfolded enrich_track_def tid Let_def, simplified]
  from a obtain as where as: "array_of (js_or (get_opt t ''artists'') (JArr [])) ''(t.artists || [])'' ''map'' = Inr as"
    by (cases "array_of (js_or (get_opt t ''artists'') (JArr [])) ''(t.artists || [])'' ''map''") simp_all
  note b = a [unfolded as, simplified]
  from b obtain outs where outs: "map_throw (enrich_artist genresByArtist) as = Inr outs"
    by (cases "map_throw (enrich_artist genresByArtist) as") simp_all
  have o: "outs = map (\<lambda>a. JObj [(''id'', get_opt a ''id''), (''name'', get_opt a ''name''),
                                    (''genres'', found_genres batched (get_opt a ''id''))]) as"
    using outs by (rule map_throw_Inr_map) (rule enrich_artist_result [OF g])
  from array_of_Inr [OF as] have "(case get_opt t ''artists'' of JArr as \<Rightarrow> as | _ \<Rightarrow> []) = as"
    by (cases "get_opt t ''artists''") (auto simp: js_or_def split: if_splits)
  with b [unfolded outs, simplified] o get_prop_Inr_get_opt [OF tid] show ?thesis by simp
qed

lemma enriched_body_Inr:
  assumes "enriched_body L env net req fx = (Inr out, fx')"
  shows "\<exists>top_r fx1 ts idss batched.
           sfetch L env net req (top_path ''tracks'' req) fx = (Inr top_r, fx1)
         \<and> get_prop top_r ''items'' = Inr (JArr ts)
         \<and> map_throw artist_ids_of ts = Inr idss
         \<and> sfetch_each L env net req (batches_from (unique (concat idss)) 0) [] fx1 = (Inr batched, fx')
         \<and> out = JObj [(''items'', JArr (map (\<lambda>t.
             JObj [(''id'', get_opt t ''id''), (''name'', get_opt t ''name''), (''uri'', get_opt t ''uri''),
                   (''popularity'', get_opt t ''popularity''), (''duration_ms'', get_opt t ''duration_ms''),
                   (''explicit'', get_opt t ''explicit''),
                   (''album'', JObj [(''id'', get_opt (get_opt t ''album'') ''id''),
                                     (''name'', get_opt (get_opt t ''album'') ''name''),
                                     (''release_date'', get_opt (get_opt t ''album'') ''release_date'')]),
                   (''artists'',
                      JArr (map (\<lambda>a. JObj [(''id'', get_opt a ''id''), (''name'', get_opt a ''name''),
                                            (''genres'', found_genres batched (get_opt a ''id''))])
                             (case get_opt t ''artists'' of JArr as \<Rightarrow> as | _ \<Rightarrow> [])))]) ts))]"
proof -
  obtain r fx1 where s: "sfetch L env net req (top_path ''tracks'' req) fx = (r, fx1)"
    by (cases "sfetch L env net req (top_path ''tracks'' req) fx")
  note a = assms [unfolded enriched_body_def s, simplified]
  from a obtain top_r where r: "r = Inr top_r" by (cases r) simp_all
  note a1 = a [unfolded r, simplified]
  from a1 obtain ids where ids: "gather_artist_ids top_r = Inr ids"
    by (cases "gather_artist_ids top_r") simp_all
  note a2 = a1 [unfolded ids, simplified]
  obtain rb fx2 where fb: "fetch_batches L env net req ids 0 [] fx1 = (rb, fx2)"
    by (cases "fetch_batches L env net req ids 0 [] fx1")
  note a3 = a2 [unfolded fb, simplified]
  from a3 obtain batched where rb: "rb = Inr batched" by (cases rb) simp_all
  note a4 = a3 [unfolded rb, simplified]
  from a4 obtain entries where ge: "genre_entries batched = Inr entries"
    by (cases "genre_entries batched") simp_all
  note a5 = a4 [unfolded ge, simplified]
  from gather_artist_ids_result [OF ids] obtain ts idss where
    g: "get_prop top_r ''items'' = Inr (JArr ts)" "map_throw artist_ids_of ts = Inr idss"
       "ids = unique (concat idss)"
    by blast
  have go: "get_opt top_r ''items'' = JArr ts" using g(1) by (simp add: get_opt_def)
  note a6 = a5 [unfolded go, simplified]
  from a6 obtain items where it: "map_throw (enrich_track entries) ts = Inr items"
    by (cases "map_throw (enrich_track entries) ts") simp_all
  from a6 [unfolded it, simplified] have o: "out = JObj [(''items'', JArr items)]" "fx' = fx2"
    by simp_all
  have items: "items = map (\<lambda>t.
             JObj [(''id'', get_opt t ''id''), (''name'', get_opt t ''name''), (''uri'', get_opt t ''uri''),
                   (''popularity'', get_opt t ''popularity''), (''duration_ms'', get_opt t ''duration_ms''),
                   (''explicit'', get_opt t ''explicit''),
                   (''album'', JObj [(''id'', get_opt (get_opt t ''album'') ''id''),
                                     (''name'', get_opt (get_opt t ''album'') ''name''),
                                     (''release_date'', get_opt (get_opt t ''album'') ''release_date'')]),
                   (''artists'',
                      JArr (map (\<lambda>a. JObj [(''id'', get_opt a ''id''), (''name'', get_opt a ''name''),
                                            (''genres'', found_genres batched (get_opt a ''id''))])
                             (case get_opt t ''artists'' of JArr as \<Rightarrow> as | _ \<Rightarrow> [])))]) ts"
    using it by (rule map_throw_Inr_map) (rule enrich_track_result [OF ge])
  have se: "sfetch_each L env net req (batches_from (unique (concat idss)) 0) [] fx1 = (Inr batched, fx')"
    using fb unfolding fetch_batches_each rb g(3) o(2) .
  from s [unfolded r] g(1,2) se o(1) [unfolded items] show ?thesis by blast
qed


subsection \<open>GET /debug/topcounts\<close>

lemma start_all_topcounts:
  "start_all L net req topcounts_paths fx =
     ([(''/me/top/tracks?time_range=short_term&limit=50'',
        AwaitResource (net (sent fx)
          (resource_request L ''/me/top/tracks?time_range=short_term&limit=50''
             (cookie req ''spotify_access_token'')))),
       (''/me/top/tracks?time_range=medium_term&limit=50'',
        AwaitResource (net (sent fx @
            [resource_request L ''/me/top/tracks?time_range=short_term&limit=50''
               (cookie req ''spotify_access_token'')])
          (resource_request L ''/me/top/tracks?time_range=medium_term&limit=50''
             (cookie req ''spotify_access_token'')))),
       (''/me/top/tracks?time_range=long_term&limit=50'',
        AwaitResource (net (sent fx @
            [resource_request L ''/me/top/tracks?time_range=short_term&limit=50''
               (cookie req ''spotify_access_token''),
             resource_request L ''/me/top/tracks?time_range=medium_term&limit=50''
               (cookie req ''spotify_access_token'')])
          (resource_request L ''/me/top/tracks?time_range=long_term&limit=50''
             (cookie req ''spotify_access_token''))))],
      fx\<lparr>sent := sent fx @
         [resource_request L ''/me/top/tracks?time_range=short_term&limit=50''
            (cookie req ''spotify_access_token''),
          resource_request L ''/me/top/tracks?time_range=medium_term&limit=50''
            (cookie req ''spotify_access_token''),
          resource_request L ''/me/top/tracks?time_range=long_term&limit=50''
            (cookie req ''spotify_access_token'')]\<rparr>)"
  by (simp add: topcounts_paths_def sfetch_start_def fetch_def)




lemma fulfilled_None_iff: "fulfilled pc = None \<longleftrightarrow> (\<forall>v. snd pc \<noteq> Settled (Inr v))"
  by (cases "snd pc") (auto simp: fulfilled_def split: sum.splits)

lemma await_all_reject:
  assumes "i < length cs"
    and "sfetch_resume L env net req (fst (cs ! i)) (snd (cs ! i)) fx = (Settled (Inl e), fx1)"
  shows "await_all L env net req (i # schedule) cs fx = (Some (Inl e), fx1)"
  using assms by simp

lemma await_all_done:
  assumes "i < length cs"
    and "sfetch_resume L env net req (fst (cs ! i)) (snd (cs ! i)) fx = (c, fx1)"
    and "\<forall>e. c \<noteq> Settled (Inl e)"
    and "all_fulfilled (cs[i := (fst (cs ! i), c)]) = Some vs"
  shows "await_all L env net req (i # schedule) cs fx = (Some (Inr vs), fx1)"
proof (cases c)
  case (Settled x)
  with assms(3) obtain v where "x = Inr v" by (cases x) auto
  with Settled assms show ?thesis by simp
qed (use assms in simp_all)

lemma await_all_continue:
  assumes "i < length cs"
    and "sfetch_resume L env net req (fst (cs ! i)) (snd (cs ! i)) fx = (c, fx1)"
    and "\<forall>e. c \<noteq> Settled (Inl e)"
    and "all_fulfilled (cs[i := (fst (cs ! i), c)]) = None"
  shows "await_all L env net req (i # schedule) cs fx =
           await_all L env net req schedule (cs[i := (fst (cs ! i), c)]) fx1"
proof (cases c)
  case (Settled x)
  with assms(3) obtain v where "x = Inr v" by (cases x) auto
  with Settled assms show ?thesis by simp
qed (use assms in simp_all)

lemma await_all_skip:
  "\<not> i < length cs \<Longrightarrow>
   await_all L env net req (i # schedule) cs fx = await_all L env net req schedule cs fx"
  by simp

declare await_all.simps(2) [simp del]



lemma advance_length: "length (fst (advance L env net req schedule cs fx)) = length cs"
  by (induction schedule arbitrary: cs fx) (auto split: prod.splits)

lemma advance_paths: "map fst (fst (advance L env net req schedule cs fx)) = map fst cs"
proof (induction schedule arbitrary: cs fx)
  case Nil
  show ?case by simp
next
  case (Cons i schedule)
  show ?case
  proof (cases "i < length cs")
    case True
    obtain c fx1 where r: "sfetch_resume L env net req (fst (cs ! i)) (snd (cs ! i)) fx = (c, fx1)"
      by (cases "sfetch_resume L env net req (fst (cs ! i)) (snd (cs ! i)) fx")
    have "map fst (cs[i := (fst (cs ! i), c)]) = map fst cs"
      using True by (simp add: map_update list_update_same_conv)
    with Cons [of "cs[i := (fst (cs ! i), c)]" fx1] True r show ?thesis by simp
  next
    case False
    with Cons show ?thesis by simp
  qed
qed

lemma advance_append:
  "advance L env net req (pre @ post) cs fx =
     (case advance L env net req pre cs fx of (cs1, fx1) \<Rightarrow> advance L env net req post cs1 fx1)"
  by (induction pre arbitrary: cs fx) (auto split: prod.splits)

lemma await_all_outcome:
  assumes "await_all L env net req schedule cs fx = (Some r, fx')"
  shows "(\<exists>e pre i post cs1 fx1.
            r = Inl e \<and> schedule = pre @ i # post \<and> i < length cs
            \<and> advance L env net req pre cs fx = (cs1, fx1)
            \<and> sfetch_resume L env net req (fst (cs1 ! i)) (snd (cs1 ! i)) fx1 = (Settled (Inl e), fx'))
       \<or> (\<exists>vs pre post cs1.
            r = Inr vs \<and> schedule = pre @ post
            \<and> advance L env net req pre cs fx = (cs1, fx')
            \<and> all_fulfilled cs1 = Some vs)"
  using assms
proof (induction schedule arbitrary: cs fx)
  case Nil
  then show ?case by simp
next
  case (Cons i schedule)
  show ?case
  proof (cases "i < length cs")
    case False
    from Cons.prems have "await_all L env net req schedule cs fx = (Some r, fx')"
      unfolding await_all_skip [OF False] .
    from Cons.IH [OF this] show ?thesis
    proof
      assume "\<exists>e pre j post cs1 fx1.
            r = Inl e \<and> schedule = pre @ j # post \<and> j < length cs
            \<and> advance L env net req pre cs fx = (cs1, fx1)
            \<and> sfetch_resume L env net req (fst (cs1 ! j)) (snd (cs1 ! j)) fx1 = (Settled (Inl e), fx')"
      then obtain e pre j post cs1 fx1 where
        h: "r = Inl e" "schedule = pre @ j # post" "j < length cs"
           "advance L env net req pre cs fx = (cs1, fx1)"
           "sfetch_resume L env net req (fst (cs1 ! j)) (snd (cs1 ! j)) fx1 = (Settled (Inl e), fx')"
        by blast
      have "i # schedule = (i # pre) @ j # post" using h(2) by simp
      moreover have "advance L env net req (i # pre) cs fx = (cs1, fx1)"
        using False h(4) by simp
      ultimately show ?thesis using h(1,3,5) by blast
    next
      assume "\<exists>vs pre post cs1.
            r = Inr vs \<and> schedule = pre @ post
            \<and> advance L env net req pre cs fx = (cs1, fx')
            \<and> all_fulfilled cs1 = Some vs"
      then obtain vs pre post cs1 where
        h: "r = Inr vs" "schedule = pre @ post" "advance L env net req pre cs fx = (cs1, fx')"
           "all_fulfilled cs1 = Some vs"
        by blast
      have "i # schedule = (i # pre) @ post" using h(2) by simp
      moreover have "advance L env net req (i # pre) cs fx = (cs1, fx')"
        using False h(3) by simp
      ultimately show ?thesis using h(1,4) by blast
    qed
  next
    case True
    obtain c fx1 where rs: "sfetch_resume L env net req (fst (cs ! i)) (snd (cs ! i)) fx = (c, fx1)"
      by (cases "sfetch_resume L env net req (fst (cs ! i)) (snd (cs ! i)) fx")
    show ?thesis
    proof (cases "\<exists>e. c = Settled (Inl e)")
      case True
      then obtain e where c: "c = Settled (Inl e)" ..
      with rs have rs': "sfetch_resume L env net req (fst (cs ! i)) (snd (cs ! i)) fx = (Settled (Inl e), fx1)"
        by simp
      from await_all_reject [OF \<open>i < length cs\<close> rs', of schedule] Cons.prems
      have "r = Inl e" "fx' = fx1" by simp_all
      moreover have "i # schedule = [] @ i # schedule" by simp
      moreover have "advance L env net req [] cs fx = (cs, fx)" by simp
      ultimately show ?thesis using \<open>i < length cs\<close> rs' by blast
    next
      case False
      then have nr: "\<forall>e. c \<noteq> Settled (Inl e)" by simp
      have adv: "advance L env net req (i # pre) cs fx =
                   advance L env net req pre (cs[i := (fst (cs ! i), c)]) fx1" for pre
        using True rs by simp
      show ?thesis
      proof (cases "all_fulfilled (cs[i := (fst (cs ! i), c)])")
        case (Some vs)
        from await_all_done [OF True rs nr Some, of schedule] Cons.prems
        have "r = Inr vs" "fx' = fx1" by simp_all
        moreover have "i # schedule = [i] @ schedule" by simp
        moreover have "advance L env net req [i] cs fx = (cs[i := (fst (cs ! i), c)], fx1)"
          using adv [of "[]"] by simp
        ultimately show ?thesis using Some by blast
      next
        case None
        from Cons.prems
        have "await_all L env net req schedule (cs[i := (fst (cs ! i), c)]) fx1 = (Some r, fx')"
          unfolding await_all_continue [OF True rs nr None] .
        from Cons.IH [OF this] show ?thesis
        proof
          assume "\<exists>e pre j post cs1 fx2.
            r = Inl e \<and> schedule = pre @ j # post \<and> j < length (cs[i := (fst (cs ! i), c)])
            \<and> advance L env net req pre (cs[i := (fst (cs ! i), c)]) fx1 = (cs1, fx2)
            \<and> sfetch_resume L env net req (fst (cs1 ! j)) (snd (cs1 ! j)) fx2 = (Settled (Inl e), fx')"
          then obtain e pre j post cs1 fx2 where
            h: "r = Inl e" "schedule = pre @ j # post" "j < length (cs[i := (fst (cs ! i), c)])"
               "advance L env net req pre (cs[i := (fst (cs ! i), c)]) fx1 = (cs1, fx2)"
               "sfetch_resume L env net req (fst (cs1 ! j)) (snd (cs1 ! j)) fx2 = (Settled (Inl e), fx')"
            by blast
          have "i # schedule = (i # pre) @ j # post" using h(2) by simp
          moreover have "advance L env net req (i # pre) cs fx = (cs1, fx2)"
            using adv [of pre] h(4) by simp
          moreover have "j < length cs" using h(3) by simp
          ultimately show ?thesis using h(1,5) by blast
        next
          assume "\<exists>vs pre post cs1.
            r = Inr vs \<and> schedule = pre @ post
            \<and> advance L env net req pre (cs[i := (fst (cs ! i), c)]) fx1 = (cs1, fx')
            \<and> all_fulfilled cs1 = Some vs"
          then obtain vs pre post cs1 where
            h: "r = Inr vs" "schedule = pre @ post"
               "advance L env net req pre (cs[i := (fst (cs ! i), c)]) fx1 = (cs1, fx')"
               "all_fulfilled cs1 = Some vs"
            by blast
          have "i # schedule = (i # pre) @ post" using h(2) by simp
          moreover have "advance L env net req (i # pre) cs fx = (cs1, fx')"
            using adv [of pre] h(3) by simp
          ultimately show ?thesis using h(1,4) by blast
        qed
      qed
    qed
  qed
qed


lemma debug_topcounts_outcome:
  assumes "fst (debug_topcounts L env net req schedule fx) = Some resp"
  shows "(\<exists>e pre i post cs1 fx1.
            schedule = pre @ i # post \<and> i < 3
            \<and> advance L env net req pre (fst (start_all L net req topcounts_paths fx))
                 (snd (start_all L net req topcounts_paths fx)) = (cs1, fx1)
            \<and> sfetch_resume L env net req (topcounts_paths ! i) (snd (cs1 ! i)) fx1 =
                 (Settled (Inl e), snd (debug_topcounts L env net req schedule fx))
            \<and> resp = \<lparr>res_status = 500,
                       res_body = SendJson (JObj [(''error'',
                          JStr (if message e = [] then ''failed'' else message e))])\<rparr>)
       \<or> (\<exists>vs pre post cs1.
            schedule = pre @ post
            \<and> advance L env net req pre (fst (start_all L net req topcounts_paths fx))
                 (snd (start_all L net req topcounts_paths fx)) =
                 (cs1, snd (debug_topcounts L env net req schedule fx))
            \<and> all_fulfilled cs1 = Some vs
            \<and> resp = fst (json_or_500_json ''failed'' (topcounts_body (Inr vs), fx)))"
proof -
  obtain cs fx1 where s: "start_all L net req topcounts_paths fx = (cs, fx1)"
    by (cases "start_all L net req topcounts_paths fx")
  have len: "length cs = 3" and paths: "map fst cs = topcounts_paths"
    using s unfolding start_all_topcounts by (auto simp: topcounts_paths_def)
  obtain r fx2 where a: "await_all L env net req schedule cs fx1 = (Some r, fx2)"
    using assms by (auto simp: debug_topcounts_def s split: prod.splits option.splits)
  have d: "debug_topcounts L env net req schedule fx =
             (Some (fst (json_or_500_json ''failed'' (topcounts_body r, fx2))), fx2)"
    by (simp add: debug_topcounts_def s a json_or_500_json_def split: prod.splits sum.splits)
  have fxi: "fst (json_or_500_json ''failed'' (x, f1)) = fst (json_or_500_json ''failed'' (x, f2))" for x f1 f2
    by (simp add: json_or_500_json_def split: sum.splits)
  from await_all_outcome [OF a] show ?thesis
  proof
    assume "\<exists>e pre i post cs1 fx3.
            r = Inl e \<and> schedule = pre @ i # post \<and> i < length cs
            \<and> advance L env net req pre cs fx1 = (cs1, fx3)
            \<and> sfetch_resume L env net req (fst (cs1 ! i)) (snd (cs1 ! i)) fx3 = (Settled (Inl e), fx2)"
    then obtain e pre i post cs1 fx3 where
      h: "r = Inl e" "schedule = pre @ i # post" "i < length cs"
         "advance L env net req pre cs fx1 = (cs1, fx3)"
         "sfetch_resume L env net req (fst (cs1 ! i)) (snd (cs1 ! i)) fx3 = (Settled (Inl e), fx2)"
      by blast
    have "map fst cs1 = topcounts_paths"
      using advance_paths [of L env net req pre cs fx1] h(4) paths by simp
    moreover have "length cs1 = 3"
      using advance_length [of L env net req pre cs fx1] h(4) len by simp
    ultimately have "fst (cs1 ! i) = topcounts_paths ! i"
      using h(3) len by (metis nth_map)
    with h(5) have "sfetch_resume L env net req (topcounts_paths ! i) (snd (cs1 ! i)) fx3 =
                      (Settled (Inl e), fx2)" by simp
    moreover have "resp = \<lparr>res_status = 500,
                       res_body = SendJson (JObj [(''error'',
                          JStr (if message e = [] then ''failed'' else message e))])\<rparr>"
      using assms d h(1) by (simp add: topcounts_body_def json_or_500_json_def)
    moreover have "i < 3" using h(3) len by simp
    moreover have "fst (start_all L net req topcounts_paths fx) = cs"
      "snd (start_all L net req topcounts_paths fx) = fx1"
      "snd (debug_topcounts L env net req schedule fx) = fx2"
      using s d by simp_all
    ultimately show ?thesis
      using h(2,4) by blast
  next
    assume "\<exists>vs pre post cs1.
            r = Inr vs \<and> schedule = pre @ post
            \<and> advance L env net req pre cs fx1 = (cs1, fx2)
            \<and> all_fulfilled cs1 = Some vs"
    then obtain vs pre post cs1 where
      h: "r = Inr vs" "schedule = pre @ post" "advance L env net req pre cs fx1 = (cs1, fx2)"
         "all_fulfilled cs1 = Some vs"
      by blast
    have "resp = fst (json_or_500_json ''failed'' (topcounts_body (Inr vs), fx))"
      using assms d h(1) fxi [of "topcounts_body (Inr vs)" fx2 fx] by simp
    moreover have "fst (start_all L net req topcounts_paths fx) = cs"
      "snd (start_all L net req topcounts_paths fx) = fx1"
      "snd (debug_topcounts L env net req schedule fx) = fx2"
      using s d by simp_all
    ultimately show ?thesis
      using h(2,3,4) by blast
  qed
qed

subsection \<open>POST /chat\<close>



subsection \<open>Evaluation on the concrete inputs, and the lemmas of the statements\<close>

lemma texts_differ: "artists_text \<noteq> top_text"
  by (simp add: artists_text_def top_text_def json_member_def quoted_def)

lemma catalogue_parse:
  "JSON_parse catalogue_lib top_text = Inr sample_top"
  "JSON_parse catalogue_lib artists_text = Inr (JObj [(''artists'', JArr sample_batched)])"
  by (simp_all add: catalogue_lib_def texts_differ)

lemma catalogue_ToString [simp]: "ToString catalogue_lib (JStr s) = s"
  by simp

lemma top_path_bare: "top_path ''tracks'' bare_request = ''/me/top/tracks?time_range=medium_term&limit=50''"
  by (simp add: top_path_def query_or_def bare_request_def missing_def)

lemma sfetch_catalogue_top:
  "sfetch catalogue_lib sample_env catalogue bare_request
      ''/me/top/tracks?time_range=medium_term&limit=50'' no_effects =
     (Inr sample_top,
      \<lparr>sent = [resource_request catalogue_lib ''/me/top/tracks?time_range=medium_term&limit=50'' JUndefined],
       set_cookies = []\<rparr>)"
  by (simp add: sfetch_def fetch_def Let_def catalogue_def cookie_def bare_request_def no_effects_def
      json_or_throw_def ok_def catalogue_parse)

lemma sfetch_catalogue_artists:
  "sfetch catalogue_lib sample_env catalogue bare_request ''/artists?ids=a1,a2'' fx =
     (Inr (JObj [(''artists'', JArr sample_batched)]),
      fx\<lparr>sent := sent fx @ [resource_request catalogue_lib ''/artists?ids=a1,a2'' JUndefined]\<rparr>)"
  by (simp add: sfetch_def fetch_def Let_def catalogue_def cookie_def bare_request_def
      json_or_throw_def ok_def catalogue_parse SPOTIFY_API_def)

lemma enriched_body_catalogue:
  "enriched_body catalogue_lib sample_env catalogue bare_request no_effects =
     (Inr sample_enriched,
      \<lparr>sent = [resource_request catalogue_lib ''/me/top/tracks?time_range=medium_term&limit=50'' JUndefined,
               resource_request catalogue_lib ''/artists?ids=a1,a2'' JUndefined],
       set_cookies = []\<rparr>)"
proof -
  have b: "batches_from [JStr ''a1'', JStr ''a2''] 0 = [[JStr ''a1'', JStr ''a2'']]"
    by (simp add: batches_from.simps slice50_def)
  have e: "sfetch_each catalogue_lib sample_env catalogue bare_request [[JStr ''a1'', JStr ''a2'']] []
             \<lparr>sent = [resource_request catalogue_lib ''/me/top/tracks?time_range=medium_term&limit=50'' JUndefined],
               set_cookies = []\<rparr>
           = (Inr sample_batched,
              \<lparr>sent = [resource_request catalogue_lib ''/me/top/tracks?time_range=medium_term&limit=50'' JUndefined,
                        resource_request catalogue_lib ''/artists?ids=a1,a2'' JUndefined],
                set_cookies = []\<rparr>)"
    by (simp add: sfetch_catalogue_artists spread_def js_or_def)
  have t: "map_throw (enrich_track sample_entries)
             (case get_opt sample_top ''items'' of JArr ts \<Rightarrow> ts | _ \<Rightarrow> [])
           = Inr (case get_opt sample_enriched ''items'' of JArr ts \<Rightarrow> ts | _ \<Rightarrow> [])"
    by (simp add: sample_top_def sample_enriched_def get_opt_def enrich_track_def enrich_artist_def
        array_of_def js_or_def Map_get_def sample_entries_def same_value_zero_def)
  have fb: "fetch_batches catalogue_lib sample_env catalogue bare_request [JStr ''a1'', JStr ''a2''] 0 []
             \<lparr>sent = [resource_request catalogue_lib ''/me/top/tracks?time_range=medium_term&limit=50'' JUndefined],
               set_cookies = []\<rparr>
           = (Inr sample_batched,
              \<lparr>sent = [resource_request catalogue_lib ''/me/top/tracks?time_range=medium_term&limit=50'' JUndefined,
                        resource_request catalogue_lib ''/artists?ids=a1,a2'' JUndefined],
                set_cookies = []\<rparr>)"
    unfolding fetch_batches_each b by (rule e)
  show ?thesis
    unfolding enriched_body_def top_path_bare sfetch_catalogue_top
    by (simp add: gather_sample fb genre_entries_sample t)
       (simp add: sample_enriched_def get_opt_def)
qed

lemma artist_ids_of_result:
  assumes "artist_ids_of t = Inr ids"
  shows "ids = map (\<lambda>a. get_opt a ''id'') (case get_opt t ''artists'' of JArr as \<Rightarrow> as | _ \<Rightarrow> [])"
proof -
  from assms obtain artists where a: "get_prop t ''artists'' = Inr artists"
    unfolding artist_ids_of_def by (cases "get_prop t ''artists''") simp_all
  note b = assms [unfolded artist_ids_of_def a, simplified]
  from b obtain as where as: "array_of (js_coalesce artists (JArr [])) ''(t.artists ?? [])'' ''map'' = Inr as"
    by (cases "array_of (js_coalesce artists (JArr [])) ''(t.artists ?? [])'' ''map''") simp_all
  from b [unfolded as, simplified] have "ids = map (\<lambda>a. get_opt a ''id'') as"
    by (rule map_throw_Inr_map) (rule get_prop_Inr_get_opt)
  moreover have "(case get_opt t ''artists'' of JArr as \<Rightarrow> as | _ \<Rightarrow> []) = as"
    using array_of_Inr [OF as] unfolding get_prop_Inr_get_opt [OF a, symmetric]
    by (cases artists) (simp_all add: js_coalesce_def nullish_def)
  ultimately show ?thesis by simp
qed










lemma distinct_concat_index:
  "distinct (concat xss) \<Longrightarrow> i < length xss \<Longrightarrow> j < length xss \<Longrightarrow>
   x \<in> set (xss ! i) \<Longrightarrow> x \<in> set (xss ! j) \<Longrightarrow> i = j"
proof (induction xss arbitrary: i j)
  case Nil
  then show ?case by simp
next
  case (Cons xs xss)
  show ?case
  proof (cases i)
    case 0
    show ?thesis
    proof (cases j)
      case (Suc j')
      with Cons.prems 0 have "x \<in> set xs" "x \<in> set (xss ! j')" "j' < length xss" by simp_all
      then have "x \<in> set xs" "x \<in> \<Union> (set ` set xss)" using nth_mem by auto
      with Cons.prems(1) show ?thesis by auto
    qed (simp add: 0)
  next
    case i: (Suc i')
    show ?thesis
    proof (cases j)
      case 0
      with Cons.prems i have "x \<in> set xs" "x \<in> set (xss ! i')" "i' < length xss" by simp_all
      then have "x \<in> set xs" "x \<in> \<Union> (set ` set xss)" using nth_mem by auto
      with Cons.prems(1) show ?thesis by auto
    next
      case (Suc j')
      with Cons.prems i have "distinct (concat xss)" "i' < length xss" "j' < length xss"
        "x \<in> set (xss ! i')" "x \<in> set (xss ! j')" by simp_all
      from Cons.IH [OF this] i Suc show ?thesis by simp
    qed
  qed
qed

lemma one_batch:
  assumes "distinct ids" and "x \<in> set ids"
  shows "\<exists>!k. k < length (batches_from ids 0) \<and> x \<in> set (batches_from ids 0 ! k)"
proof -
  have c: "concat (batches_from ids 0) = ids" by (simp add: concat_batches_from)
  with assms(2) have "x \<in> set (concat (batches_from ids 0))" by simp
  then obtain b where "b \<in> set (batches_from ids 0)" "x \<in> set b" by auto
  then obtain k where k: "k < length (batches_from ids 0)" "x \<in> set (batches_from ids 0 ! k)"
    by (auto simp: in_set_conv_nth)
  have d: "distinct (concat (batches_from ids 0))" using assms(1) c by simp
  show ?thesis
  proof (rule ex1I [of _ k])
    show "k < length (batches_from ids 0) \<and> x \<in> set (batches_from ids 0 ! k)" using k by simp
  next
    fix j assume "j < length (batches_from ids 0) \<and> x \<in> set (batches_from ids 0 ! j)"
    then show "j = k" using distinct_concat_index [OF d _ k(1) _ k(2), of j] by simp
  qed
qed

subsection \<open>Route tables\<close>

lemma server_routes_eval:
  "server_routes =
     [(GET, ''/auth/login''), (GET, ''/auth/callback''), (GET, ''/debug/tokens''),
      (GET, ''/spotify/me''), (GET, ''/spotify/top-tracks''), (GET, ''/spotify/top-artists''),
      (GET, ''/spotify/recent''), (GET, ''/enriched/top-tracks''), (GET, ''/debug/topcounts''),
      (GET, ''/chat/test''), (POST, ''/chat'')]"
  by (simp add: server_routes_def mount_def chatRouter_routes_def)

section \<open>The claims\<close>

text \<open>
  C1: signing a payload and verifying the result gives the payload back, as long as the
  current time is not past its expiry.  The runtime library is assumed to do what it
  does in Node: the HMAC digest is not empty, and \<^verbatim>\<open>JSON.parse\<close> reads back what
  \<^verbatim>\<open>JSON.stringify\<close> wrote for this payload, which is not the empty string.
\<close>

theorem signState_roundtrip:
  assumes "hmac_sha256 L (SESSION_SECRET env)
             (b64url_encode (JSON_stringify L (payload_object p))) \<noteq> []"
    and "JSON_stringify L (payload_object p) \<noteq> []"
    and "JSON_parse L (JSON_stringify L (payload_object p)) = Inr (payload_object p)"
    and "\<not> sp_exp p < now"
  shows "verifyState L env now (Some (signState L env p)) = Inr (payload_object p)"
  using verifyState_signState [OF assms(1-3), of now] assms(4) by simp

theorem signState_roundtrip_witness:
  "\<not> sp_exp sample_payload < 1700000000000
   \<and> verifyState stub_lib sample_env 1700000000000
        (Some (signState stub_lib sample_env sample_payload))
      = Inr (payload_object sample_payload)"
proof -
  have d: "hmac_sha256 stub_lib (SESSION_SECRET sample_env)
             (b64url_encode (JSON_stringify stub_lib (payload_object sample_payload))) \<noteq> []"
    by (simp add: stub_lib_def)
  have n: "JSON_stringify stub_lib (payload_object sample_payload) \<noteq> []"
    by (simp add: stub_roundtrip sample_payload_text_nonempty)
  have e: "\<not> sp_exp sample_payload < 1700000000000"
    by (simp add: sample_payload_def)
  from signState_roundtrip [OF d n stub_roundtrip(1) e] e show ?thesis by simp
qed



text \<open>
  C3, as stated, for the repository: it fails, because src/index.ts registers
  \<^verbatim>\<open>GET /spotify/features\<close>, which is not one of the eleven documented routes.
\<close>

theorem surface_counterexample:
  "(GET, ''/spotify/features'') \<in> set repository_routes
   \<and> (GET, ''/spotify/features'') \<notin> set documented_surface"
  by (simp add: repository_routes_def index_routes_def documented_surface_def)

text \<open>
  C3 (amended): the application of server/index.ts, with the chat router mounted under
  \<^verbatim>\<open>/chat\<close>, registers exactly the eleven documented routes, each once; the other two
  applications of the repository register four routes more: \<^verbatim>\<open>GET /\<close>,
  \<^verbatim>\<open>GET /auth/refresh\<close>, \<^verbatim>\<open>GET /spotify/features\<close> and \<^verbatim>\<open>GET /hi\<close>.
\<close>

theorem server_surface:
  "set server_routes = set documented_surface
   \<and> distinct server_routes
   \<and> set repository_routes - set documented_surface =
       {(GET, ''/''), (GET, ''/auth/refresh''), (GET, ''/spotify/features''), (GET, ''/hi'')}"
proof -
  have a: "set server_routes = set documented_surface"
    unfolding server_routes_eval documented_surface_def by (simp add: insert_commute)
  have b: "distinct server_routes"
    unfolding server_routes_eval by simp
  have c: "set repository_routes - set documented_surface =
       {(GET, ''/''), (GET, ''/auth/refresh''), (GET, ''/spotify/features''), (GET, ''/hi'')}"
    unfolding repository_routes_def server_routes_eval index_routes_def Server_routes_def
      documented_surface_def
    by auto
  from a b c show ?thesis by blast
qed






text \<open>
  C6: whenever the \<^verbatim>\<open>try\<close> block of \<^verbatim>\<open>GET /enriched/top-tracks\<close> ends without an
  exception, the handler has fetched the top tracks, gathered the ids of the artists of
  the items and deduplicated them: the ids kept are the ids gathered, and no two of them
  are the same value; when all are primitive values (Spotify's ids are strings) they are
  pairwise distinct.  The ids are cut into batches of between 1 and 50 ids that, in
  order, make up the list of ids, so that every id, when the ids are primitive, is in
  exactly one batch.  After the top tracks the handler sends, for each batch in
  order, one or two requests to \<^verbatim>\<open>/artists?ids=\<close> followed by the ids of the batch
  joined with commas, and apart from token refreshes nothing else.  The response has
  status 200; its items are the top tracks, and every artist of a track carries the
  genres found for its id among the artists fetched, or \<^verbatim>\<open>[]\<close> when none was found.
\<close>

theorem enriched_batches:
  assumes "enriched_body L env net req fx = (Inr out, fx')"
  shows "\<exists>top_r fx1 ts ids batches batched ks.
      sfetch L env net req (top_path ''tracks'' req) fx = (Inr top_r, fx1)
    \<and> get_prop top_r ''items'' = Inr (JArr ts)
    \<and> ids = unique (concat (map (\<lambda>t. map (\<lambda>a. get_opt a ''id'')
                (case get_opt t ''artists'' of JArr as \<Rightarrow> as | _ \<Rightarrow> [])) ts))
    \<and> set ids = set (concat (map (\<lambda>t. map (\<lambda>a. get_opt a ''id'')
                (case get_opt t ''artists'' of JArr as \<Rightarrow> as | _ \<Rightarrow> [])) ts))
    \<and> (\<forall>i j. i < j \<and> j < length ids \<longrightarrow> \<not> same_value_zero (ids ! i) (ids ! j))
    \<and> ((\<forall>x \<in> set ids. primitive x) \<longrightarrow> distinct ids)
    \<and> batches = batches_from ids 0
    \<and> concat batches = ids
    \<and> (\<forall>b \<in> set batches. b \<noteq> [] \<and> length b \<le> 50)
    \<and> ((\<forall>x \<in> set ids. primitive x) \<longrightarrow>
         (\<forall>x \<in> set ids. \<exists>!k. k < length batches \<and> x \<in> set (batches ! k)))
    \<and> sfetch_each L env net req batches [] fx1 = (Inr batched, fx')
    \<and> length ks = length batches
    \<and> (\<forall>k \<in> set ks. k = (1::nat) \<or> k = 2)
    \<and> map url (filter (\<lambda>r. url r \<noteq> SPOTIFY_TOKEN) (drop (length (sent fx1)) (sent fx')))
        = concat (map2 (\<lambda>b k. replicate k
            (SPOTIFY_API @ ''/artists?ids=''
               @ join '','' (map (\<lambda>v. if v = JUndefined \<or> v = JNull then [] else ToString L v) b)))
           batches ks)
    \<and> out = JObj [(''items'', JArr (map (\<lambda>t.
             JObj [(''id'', get_opt t ''id''), (''name'', get_opt t ''name''), (''uri'', get_opt t ''uri''),
                   (''popularity'', get_opt t ''popularity''), (''duration_ms'', get_opt t ''duration_ms''),
                   (''explicit'', get_opt t ''explicit''),
                   (''album'', JObj [(''id'', get_opt (get_opt t ''album'') ''id''),
                                     (''name'', get_opt (get_opt t ''album'') ''name''),
                                     (''release_date'', get_opt (get_opt t ''album'') ''release_date'')]),
                   (''artists'',
                      JArr (map (\<lambda>a. JObj [(''id'', get_opt a ''id''), (''name'', get_opt a ''name''),
                                            (''genres'', found_genres batched (get_opt a ''id''))])
                             (case get_opt t ''artists'' of JArr as \<Rightarrow> as | _ \<Rightarrow> [])))]) ts))]
    \<and> enriched_top_tracks L env net req fx = (\<lparr>res_status = 200, res_body = SendJson out\<rparr>, fx')"
proof -
  from enriched_body_Inr [OF assms] obtain top_r fx1 ts idss batched where
    h: "sfetch L env net req (top_path ''tracks'' req) fx = (Inr top_r, fx1)"
       "get_prop top_r ''items'' = Inr (JArr ts)"
       "map_throw artist_ids_of ts = Inr idss"
       "sfetch_each L env net req (batches_from (unique (concat idss)) 0) [] fx1 = (Inr batched, fx')"
       "out = JObj [(''items'', JArr (map (\<lambda>t.
             JObj [(''id'', get_opt t ''id''), (''name'', get_opt t ''name''), (''uri'', get_opt t ''uri''),
                   (''popularity'', get_opt t ''popularity''), (''duration_ms'', get_opt t ''duration_ms''),
                   (''explicit'', get_opt t ''explicit''),
                   (''album'', JObj [(''id'', get_opt (get_opt t ''album'') ''id''),
                                     (''name'', get_opt (get_opt t ''album'') ''name''),
                                     (''release_date'', get_opt (get_opt t ''album'') ''release_date'')]),
                   (''artists'',
                      JArr (map (\<lambda>a. JObj [(''id'', get_opt a ''id''), (''name'', get_opt a ''name''),
                                            (''genres'', found_genres batched (get_opt a ''id''))])
                             (case get_opt t ''artists'' of JArr as \<Rightarrow> as | _ \<Rightarrow> [])))]) ts))]"
    by blast
  define gathered where "gathered = concat (map (\<lambda>t. map (\<lambda>a. get_opt a ''id'')
                (case get_opt t ''artists'' of JArr as \<Rightarrow> as | _ \<Rightarrow> [])) ts)"
  define ids where "ids = unique gathered"
  define batches where "batches = batches_from ids 0"
  have "idss = map (\<lambda>t. map (\<lambda>a. get_opt a ''id'')
                (case get_opt t ''artists'' of JArr as \<Rightarrow> as | _ \<Rightarrow> [])) ts"
    using h(3) by (rule map_throw_Inr_map) (rule artist_ids_of_result)
  then have g: "concat idss = gathered" by (simp add: gathered_def)
  have se: "sfetch_each L env net req batches [] fx1 = (Inr batched, fx')"
    using h(4) unfolding g batches_def ids_def .
  from sfetch_each_sent [OF se] obtain extra ks where
    e: "sent fx' = sent fx1 @ extra" "length ks = length batches" "\<forall>k \<in> set ks. k = 1 \<or> k = 2"
       "map url (filter (\<lambda>r. url r \<noteq> SPOTIFY_TOKEN) extra)
        = concat (map2 (\<lambda>b k. replicate k
            (SPOTIFY_API @ ''/artists?ids=''
               @ join '','' (map (\<lambda>v. if v = JUndefined \<or> v = JNull then [] else ToString L v) b)))
           batches ks)"
    by blast
  have d: "drop (length (sent fx1)) (sent fx') = extra" by (simp add: e(1))
  have c1: "ids = unique gathered" by (simp add: ids_def)
  have c2: "set ids = set gathered" by (simp add: ids_def set_unique)
  have c3: "\<forall>i j. i < j \<and> j < length ids \<longrightarrow> \<not> same_value_zero (ids ! i) (ids ! j)"
    unfolding ids_def using unique_no_repeat by blast
  have c4: "(\<forall>x \<in> set ids. primitive x) \<longrightarrow> distinct ids"
    unfolding ids_def set_unique by (simp add: primitive_distinct_unique)
  have c5: "batches = batches_from ids 0" by (simp add: batches_def)
  have c6: "concat batches = ids" by (simp add: batches_def concat_batches_from)
  have c7: "\<forall>b \<in> set batches. b \<noteq> [] \<and> length b \<le> 50"
    unfolding batches_def using batches_from_bounds by blast
  have c7b: "(\<forall>x \<in> set ids. primitive x) \<longrightarrow>
         (\<forall>x \<in> set ids. \<exists>!k. k < length batches \<and> x \<in> set (batches ! k))"
    using c4 one_batch [of ids] unfolding batches_def by blast
  have c8: "enriched_top_tracks L env net req fx = (\<lparr>res_status = 200, res_body = SendJson out\<rparr>, fx')"
    by (simp add: enriched_top_tracks_def assms json_or_500_json_def)
  show ?thesis
    apply (rule exI [of _ top_r], rule exI [of _ fx1], rule exI [of _ ts], rule exI [of _ ids],
           rule exI [of _ batches], rule exI [of _ batched], rule exI [of _ ks])
    unfolding d gathered_def [symmetric]
    using h(1,2) c1 c2 c3 c4 c5 c6 c7 c7b se e(2,3,4) h(5) c8
    apply (intro conjI)
                  apply assumption+
    done
qed

theorem enriched_batches_witness:
  "enriched_body catalogue_lib sample_env catalogue bare_request no_effects =
     (Inr sample_enriched,
      \<lparr>sent = [resource_request catalogue_lib ''/me/top/tracks?time_range=medium_term&limit=50'' JUndefined,
               resource_request catalogue_lib ''/artists?ids=a1,a2'' JUndefined],
       set_cookies = []\<rparr>)
   \<and> enriched_top_tracks catalogue_lib sample_env catalogue bare_request no_effects =
     (\<lparr>res_status = 200, res_body = SendJson sample_enriched\<rparr>,
      \<lparr>sent = [resource_request catalogue_lib ''/me/top/tracks?time_range=medium_term&limit=50'' JUndefined,
               resource_request catalogue_lib ''/artists?ids=a1,a2'' JUndefined],
       set_cookies = []\<rparr>)"
proof -
  from enriched_batches [OF enriched_body_catalogue]
  have "enriched_top_tracks catalogue_lib sample_env catalogue bare_request no_effects =
     (\<lparr>res_status = 200, res_body = SendJson sample_enriched\<rparr>,
      \<lparr>sent = [resource_request catalogue_lib ''/me/top/tracks?time_range=medium_term&limit=50'' JUndefined,
               resource_request catalogue_lib ''/artists?ids=a1,a2'' JUndefined],
       set_cookies = []\<rparr>)"
    by (elim exE conjE)
  with enriched_body_catalogue show ?thesis by simp
qed

text \<open>
  C7: \<^verbatim>\<open>GET /auth/callback\<close> does not answer 400 to every state with a bad
  signature.  For a state \<^verbatim>\<open>body.sig\<close> of two non-empty parts whose signature has not
  43 characters, \<^verbatim>\<open>verifyState\<close> throws, the handler ends with that exception, and no
  response is sent; nothing is sent upstream and no cookie is set.
\<close>

theorem auth_callback_raises:
  assumes "query req ''state'' = Some (body @ ''.'' @ sig)"
    and "body \<noteq> []" "sig \<noteq> []" "CHR ''.'' \<notin> set body" "CHR ''.'' \<notin> set sig"
    and "length (hmac_sha256 L (SESSION_SECRET env) body) = 32"
    and "length sig \<noteq> 43"
  shows "auth_callback L env now net req fx =
           (Inl (RangeError ''Input buffers must have the same byte length''), fx)"
proof -
  have "verifyState L env now (query req ''state'') =
          Inl (RangeError ''Input buffers must have the same byte length'')"
    using verifyState_length_mismatch [OF assms(2-7), of now] assms(1) by simp
  then show ?thesis by (simp add: auth_callback_def)
qed

theorem auth_callback_raises_witness:
  "auth_callback stub_lib sample_env 1700000000000 no_network (callback_request ''abc'' ''a.b'')
     no_effects =
   (Inl (RangeError ''Input buffers must have the same byte length''), no_effects)"
proof -
  have q: "query (callback_request ''abc'' ''a.b'') ''state'' = Some (''a'' @ ''.'' @ ''b'')"
    by (simp add: callback_request_def)
  have h: "length (hmac_sha256 stub_lib (SESSION_SECRET sample_env) ''a'') = 32"
    by (simp add: stub_lib_def)
  from auth_callback_raises [OF q _ _ _ _ h]
  show ?thesis by simp
qed

text \<open>
  C8: \<^verbatim>\<open>verifyState\<close> raises.  On a state \<^verbatim>\<open>body.sig\<close> of two non-empty parts,
  \<^verbatim>\<open>crypto.timingSafeEqual\<close> throws a RangeError whenever the signature has not the 43
  characters of a base64url SHA-256 digest; a wrong signature of 43 characters is
  rejected with null, as the claim has it.
\<close>

theorem verifyState_raises:
  assumes "body \<noteq> []" "sig \<noteq> []" "CHR ''.'' \<notin> set body" "CHR ''.'' \<notin> set sig"
    and "length (hmac_sha256 L (SESSION_SECRET env) body) = 32"
  shows "(length sig \<noteq> 43 \<longrightarrow>
            verifyState L env now (Some (body @ ''.'' @ sig)) =
              Inl (RangeError ''Input buffers must have the same byte length''))
       \<and> (length sig = 43 \<and> sig \<noteq> b64url_encode (hmac_sha256 L (SESSION_SECRET env) body) \<longrightarrow>
            verifyState L env now (Some (body @ ''.'' @ sig)) = Inr JNull)"
  using verifyState_length_mismatch [OF assms, of now] verifyState_wrong_signature [OF assms, of now]
  by simp

theorem verifyState_raises_witness:
  "verifyState stub_lib sample_env 1700000000000 (Some ''a.b'') =
     Inl (RangeError ''Input buffers must have the same byte length'')"
proof -
  have h: "length (hmac_sha256 stub_lib (SESSION_SECRET sample_env) ''a'') = 32"
    by (simp add: stub_lib_def)
  from verifyState_raises [of "''a''" "''b''" stub_lib sample_env 1700000000000, OF _ _ _ _ h]
  show ?thesis by simp
qed

text \<open>
  C9, as stated: it fails on a snapshot whose \<^verbatim>\<open>topTracks\<close> array holds a null; reading
  \<^verbatim>\<open>t.id\<close> of that entry throws a TypeError.
\<close>

theorem compactSnapshot_total_counterexample:
  "compactSnapshot (JObj [(''topTracks'', JArr [JNull])]) = Inl (cannot_read JNull ''id'')"
  by (simp add: compactSnapshot_def get_opt_def js_or_def topN_def project_def track_keys_def)

text \<open>
  C9 (amended): \<^verbatim>\<open>compactSnapshot\<close> returns a result exactly when none of the entries
  it keeps is null or undefined.  It returns one for null and for undefined; in a
  result, a field \<^verbatim>\<open>topTracks\<close>, \<^verbatim>\<open>topArtists\<close> or \<^verbatim>\<open>recent\<close> that was not an array
  is the empty list, and a missing profile is undefined.
\<close>

theorem compactSnapshot_defensive:
  "((\<exists>r. compactSnapshot s = Inr r) \<longleftrightarrow> entries_present s)
   \<and> compactSnapshot JNull = Inr empty_compact
   \<and> compactSnapshot JUndefined = Inr empty_compact
   \<and> (compactSnapshot s = Inr r \<longrightarrow>
        ((\<forall>xs. get_opt s ''topTracks'' \<noteq> JArr xs) \<longrightarrow> get_opt r ''topTracks'' = JArr [])
        \<and> ((\<forall>xs. get_opt s ''topArtists'' \<noteq> JArr xs) \<longrightarrow> get_opt r ''topArtists'' = JArr [])
        \<and> ((\<forall>xs. get_opt s ''recent'' \<noteq> JArr xs) \<longrightarrow> get_opt r ''recent'' = JArr [])
        \<and> (get_opt s ''profile'' = JUndefined \<longrightarrow> get_opt r ''profile'' = JUndefined))"
proof (intro conjI impI)
  show "(\<exists>r. compactSnapshot s = Inr r) \<longleftrightarrow> entries_present s"
    by (rule compactSnapshot_returns_iff)
  show "compactSnapshot JNull = Inr empty_compact"
    by (simp add: compactSnapshot_def get_opt_def js_or_def topN_def empty_compact_def cannot_read_def)
  show "compactSnapshot JUndefined = Inr empty_compact"
    by (simp add: compactSnapshot_def get_opt_def js_or_def topN_def empty_compact_def cannot_read_def)
next
  assume r: "compactSnapshot s = Inr r" and n: "\<forall>xs. get_opt s ''topTracks'' \<noteq> JArr xs"
  from compactSnapshot_shape [OF r] topN_not_array [OF n]
  show "get_opt r ''topTracks'' = JArr []" by (auto simp: get_opt_def)
next
  assume r: "compactSnapshot s = Inr r" and n: "\<forall>xs. get_opt s ''topArtists'' \<noteq> JArr xs"
  from compactSnapshot_shape [OF r] topN_not_array [OF n]
  show "get_opt r ''topArtists'' = JArr []" by (auto simp: get_opt_def)
next
  assume r: "compactSnapshot s = Inr r" and n: "\<forall>xs. get_opt s ''recent'' \<noteq> JArr xs"
  from compactSnapshot_shape [OF r] topN_not_array [OF n]
  show "get_opt r ''recent'' = JArr []" by (auto simp: get_opt_def)
next
  assume r: "compactSnapshot s = Inr r" and n: "get_opt s ''profile'' = JUndefined"
  then show "get_opt r ''profile'' = JUndefined"
    by (auto simp: compactSnapshot_def n get_opt_def split: sum.splits)
qed

theorem compactSnapshot_defensive_witness:
  "entries_present sample_snapshot
   \<and> compactSnapshot sample_snapshot = Inr sample_compact
   \<and> (\<forall>xs. get_opt sample_snapshot ''topArtists'' \<noteq> JArr xs)
   \<and> get_opt sample_compact ''topArtists'' = JArr []
   \<and> (\<forall>xs. get_opt sample_snapshot ''recent'' \<noteq> JArr xs)
   \<and> get_opt sample_compact ''recent'' = JArr []"
proof -
  have h: "compactSnapshot sample_snapshot = Inr sample_compact"
    by (rule compactSnapshot_sample)
  have a: "\<forall>xs. get_opt sample_snapshot ''topArtists'' \<noteq> JArr xs"
    by (simp add: sample_snapshot_def get_opt_def)
  have b: "\<forall>xs. get_opt sample_snapshot ''recent'' \<noteq> JArr xs"
    by (simp add: sample_snapshot_def get_opt_def)
  from compactSnapshot_defensive [of sample_snapshot sample_compact] h a b
  show ?thesis by blast
qed

text \<open>
  C10: the response of \<^verbatim>\<open>GET /debug/tokens\<close> is the object of the two booleans
  \<^verbatim>\<open>hasAccess\<close> and \<^verbatim>\<open>hasRefresh\<close>; two requests whose token cookies agree in
  truthiness get the same response, whatever the token strings are; the handler sets no
  cookie and sends nothing upstream.
\<close>

theorem debug_tokens_reveals_presence_only:
  "fst (debug_tokens req fx) =
     \<lparr>res_status = 200,
      res_body = SendJson (JObj [(''hasAccess'', JBool (truthy (cookie req ''spotify_access_token''))),
                             (''hasRefresh'', JBool (truthy (cookie req ''spotify_refresh_token'')))])\<rparr>
   \<and> snd (debug_tokens req fx) = fx
   \<and> (truthy (cookie req ''spotify_access_token'') = truthy (cookie req' ''spotify_access_token'')
      \<and> truthy (cookie req ''spotify_refresh_token'') = truthy (cookie req' ''spotify_refresh_token'')
      \<longrightarrow> fst (debug_tokens req' fx') = fst (debug_tokens req fx))"
  by (simp add: debug_tokens_def)

theorem debug_tokens_witness:
  "truthy (cookie (request_with_tokens (JStr ''BQD-first'') (JStr ''AQA-first'')) ''spotify_access_token'')
     = truthy (cookie (request_with_tokens (JStr ''BQD-second'') (JStr ''AQA-second'')) ''spotify_access_token'')
   \<and> truthy (cookie (request_with_tokens (JStr ''BQD-first'') (JStr ''AQA-first'')) ''spotify_refresh_token'')
     = truthy (cookie (request_with_tokens (JStr ''BQD-second'') (JStr ''AQA-second'')) ''spotify_refresh_token'')
   \<and> cookie (request_with_tokens (JStr ''BQD-first'') (JStr ''AQA-first'')) ''spotify_access_token''
     \<noteq> cookie (request_with_tokens (JStr ''BQD-second'') (JStr ''AQA-second'')) ''spotify_access_token''
   \<and> fst (debug_tokens (request_with_tokens (JStr ''BQD-second'') (JStr ''AQA-second'')) no_effects)
     = fst (debug_tokens (request_with_tokens (JStr ''BQD-first'') (JStr ''AQA-first'')) no_effects)"
proof -
  have a: "truthy (cookie (request_with_tokens (JStr ''BQD-first'') (JStr ''AQA-first'')) ''spotify_access_token'')
     = truthy (cookie (request_with_tokens (JStr ''BQD-second'') (JStr ''AQA-second'')) ''spotify_access_token'')"
    by (simp add: cookie_def request_with_tokens_def)
  have b: "truthy (cookie (request_with_tokens (JStr ''BQD-first'') (JStr ''AQA-first'')) ''spotify_refresh_token'')
     = truthy (cookie (request_with_tokens (JStr ''BQD-second'') (JStr ''AQA-second'')) ''spotify_refresh_token'')"
    by (simp add: cookie_def request_with_tokens_def)
  have c: "cookie (request_with_tokens (JStr ''BQD-first'') (JStr ''AQA-first'')) ''spotify_access_token''
     \<noteq> cookie (request_with_tokens (JStr ''BQD-second'') (JStr ''AQA-second'')) ''spotify_access_token''"
    by (simp add: cookie_def request_with_tokens_def)
  from debug_tokens_reveals_presence_only
         [of "request_with_tokens (JStr ''BQD-first'') (JStr ''AQA-first'')" no_effects
             "request_with_tokens (JStr ''BQD-second'') (JStr ''AQA-second'')" no_effects]
       a b c
  show ?thesis by blast
qed

end
